theory Spec2Isabelle
  imports Complex_Main "HOL-Library.AList" "HOL-Library.Sublist"
begin

section \<open>Distance engine (src/unnamed/part_002, the module geofencing)\<close>

text \<open>
  JavaScript numbers are modelled as mathematical reals: \<open>Math.sin\<close>, \<open>Math.cos\<close>,
  \<open>Math.sqrt\<close> and \<open>Math.PI\<close> are \<^const>\<open>sin\<close>, \<^const>\<open>cos\<close>, \<^const>\<open>sqrt\<close> and \<^const>\<open>pi\<close>,
  and \<open>Math.atan2 y x\<close> is the angle of the point \<open>(x, y)\<close>, with \<open>atan2 0 0 = 0\<close>.
  This is an idealisation. The program computes in IEEE doubles, where every operation
  rounds, and the two differ near antipodal points: the haversine term \<open>a\<close>, at most 1
  over the reals, can round above 1 there (for the coordinates (-87.5, -180) and
  (87.5, 0) it is 1.0000000000000002), so that \<open>Math.sqrt(1 - a)\<close> and the distance the
  program returns are NaN. The facts about distances below are facts of the
  idealisation. The theorems about the geofence tracker hold for the test
  \<open>distance <= 20\<close> whatever its verdicts are; concrete verdicts are evaluated only
  where the place is at the position itself or a quarter of the globe away.
\<close>

definition atan2 :: "real \<Rightarrow> real \<Rightarrow> real" where
  "atan2 y x =
     (if 0 < x then arctan (y / x)
      else if x < 0 \<and> 0 \<le> y then arctan (y / x) + pi
      else if x < 0 \<and> y < 0 then arctan (y / x) - pi
      else if 0 < y then pi / 2
      else if y < 0 then - (pi / 2)
      else 0)"

definition calculateDistance :: "real \<Rightarrow> real \<Rightarrow> real \<Rightarrow> real \<Rightarrow> real" where
  "calculateDistance lat1 lon1 lat2 lon2 =
     (let R = 6371;
          dLat = ((lat2 - lat1) * pi) / 180;
          dLon = ((lon2 - lon1) * pi) / 180;
          a = sin (dLat / 2) * sin (dLat / 2) +
              cos ((lat1 * pi) / 180) * cos ((lat2 * pi) / 180) *
              sin (dLon / 2) * sin (dLon / 2);
          c = 2 * atan2 (sqrt a) (sqrt (1 - a))
      in R * c * 1000)"

definition isWithinGeofence :: "real \<Rightarrow> real \<Rightarrow> real \<Rightarrow> real \<Rightarrow> real \<Rightarrow> bool" where
  "isWithinGeofence userLat userLon placeLat placeLon radiusMeters =
     (let distance = calculateDistance userLat userLon placeLat placeLon
      in distance \<le> radiusMeters)"

text \<open>The default value of the parameter \<open>radiusMeters\<close>.\<close>

definition defaultRadiusMeters :: real where
  "defaultRadiusMeters = 20"

section \<open>Data model (src/shared/schema.ts)\<close>

text \<open>
  Rows of the tables \<open>users\<close>, \<open>places\<close>, \<open>locations\<close> and \<open>notifications\<close>,
  with the columns the server code below reads or writes. Serial ids are naturals,
  nullable columns are options, timestamps are milliseconds since the epoch (the value
  of \<open>Date.getTime()\<close>).
\<close>

record user =
  u_id :: nat
  u_email :: string
  u_firstName :: "string option"
  u_locationHistoryEnabled :: "bool option"

record place =
  p_id :: nat
  p_name :: string
  p_latitude :: real
  p_longitude :: real

record location =
  l_id :: nat
  l_userId :: nat
  l_latitude :: real
  l_longitude :: real
  l_accuracy :: "real option"
  l_address :: "string option"
  l_type :: string
  l_timestamp :: "int option"

record insertLocation =
  il_userId :: nat
  il_latitude :: real
  il_longitude :: real
  il_accuracy :: "real option"
  il_address :: "string option"
  il_type :: "string option"

text \<open>JSON values of notification payloads; an object is a list of key-value pairs.\<close>

datatype json = JNum nat | JStr string | JTime int | JLocation location

type_synonym json_object = "(string \<times> json) list"

record notification =
  n_userId :: nat
  n_type :: string
  n_title :: string
  n_message :: string
  n_data :: json_object
  n_isRead :: bool

datatype action = Entered | Exited

datatype error = StorageError | ParseError

section \<open>The storage collaborator and the process state\<close>

text \<open>
  The database behind \<open>storage\<close> is outside the code under study. Its queries are
  functions that either throw (\<open>Inl\<close>) or return rows; each insert throws exactly when
  the corresponding predicate holds.
\<close>

record storage =
  getUser :: "nat \<Rightarrow> error + user option"
  getFamilyMembers :: "nat \<Rightarrow> error + user list"
  getFamilyPlaces :: "nat \<Rightarrow> error + place list"
  getUserLatestLocation :: "nat \<Rightarrow> error + location option"
  createNotificationFails :: "notification \<Rightarrow> bool"
  saveLocationFails :: "insertLocation \<Rightarrow> bool"

datatype readyState = CONNECTING | OPEN | CLOSING | CLOSED

record channel =
  ch_id :: nat
  ch_readyState :: readyState

text \<open>
  The mutable state of the server process: the rows inserted so far, the module-level
  map \<open>userGeofenceStates\<close> (keyed by \<open>userId.toString()\<close>), the global object
  \<open>lastLocationNotification\<close> (absent until the first movement notification), whether
  the global hook \<open>broadcastNotification\<close> is installed, the WebSocket registry
  \<open>clients\<close> in insertion order, and the messages handed to \<open>client.send\<close>, each with
  the id of the channel that received it.
\<close>

record world =
  notifications :: "notification list"
  locations :: "location list"
  userGeofenceStates :: "string \<rightharpoonup> nat set"
  lastLocationNotification :: "(nat \<rightharpoonup> int) option"
  broadcastHookInstalled :: bool
  clients :: "(string \<times> channel) list"
  delivered :: "(nat \<times> json_object) list"

text \<open>\<open>Number.prototype.toString()\<close> on a non-negative integer: its decimal digits.\<close>

fun toString :: "nat \<Rightarrow> string" where
  "toString n =
     (if n < 10 then [''0123456789'' ! n]
      else toString (n div 10) @ [''0123456789'' ! (n mod 10)])"

declare toString.simps [simp del]

definition createNotification ::
  "storage \<Rightarrow> notification \<Rightarrow> world \<Rightarrow> (error + notification) \<times> world" where
  "createNotification st n w =
     (if createNotificationFails st n then (Inl StorageError, w)
      else (Inr n, w\<lparr>notifications := notifications w @ [n]\<rparr>))"

text \<open>
  \<open>saveLocation\<close> inserts a row; the database fills the serial id, the default type
  \<open>'manual'\<close> and the default timestamp \<open>now\<close>.
\<close>

definition saveLocation ::
  "storage \<Rightarrow> int \<Rightarrow> insertLocation \<Rightarrow> world \<Rightarrow> (error + location) \<times> world" where
  "saveLocation st now loc w =
     (if saveLocationFails st loc then (Inl StorageError, w)
      else
        (let savedLocation =
               \<lparr>l_id = Suc (length (locations w)),
                l_userId = il_userId loc,
                l_latitude = il_latitude loc,
                l_longitude = il_longitude loc,
                l_accuracy = il_accuracy loc,
                l_address = il_address loc,
                l_type = (case il_type loc of None \<Rightarrow> ''manual'' | Some t \<Rightarrow> t),
                l_timestamp = Some now\<rparr>
         in (Inr savedLocation, w\<lparr>locations := locations w @ [savedLocation]\<rparr>)))"

section \<open>Connection registry broadcast (src/unnamed/part_001, registerRoutes)\<close>

text \<open>
  The object literal \<open>{ type: 'geofence', ...notification }\<close>: the properties of
  \<open>notification\<close> are written over the initial object in order.
\<close>

definition objectSpread :: "json_object \<Rightarrow> json_object \<Rightarrow> json_object" where
  "objectSpread base extra = foldl (\<lambda>obj (k, v). AList.update k v obj) base extra"

fun broadcastToClients :: "json_object \<Rightarrow> (string \<times> channel) list \<Rightarrow> (nat \<times> json_object) list" where
  "broadcastToClients notification [] = []"
| "broadcastToClients notification ((userId, client) # rest) =
     (if ch_readyState client = OPEN
      then (let message = objectSpread [(''type'', JStr ''geofence'')] notification
            in (ch_id client, message) # broadcastToClients notification rest)
      else broadcastToClients notification rest)"

definition broadcastNotification :: "json_object \<Rightarrow> world \<Rightarrow> world" where
  "broadcastNotification notification w =
     w\<lparr>delivered := delivered w @ broadcastToClients notification (clients w)\<rparr>"

section \<open>Notification dispatcher for geofence transitions (src/unnamed/part_002)\<close>

definition actionString :: "action \<Rightarrow> string" where
  "actionString a = (case a of Entered \<Rightarrow> ''entered'' | Exited \<Rightarrow> ''exited'')"

text \<open>The expression \<open>user.firstName || user.email\<close>: null and the empty string are falsy.\<close>

definition firstNameOrEmail :: "user \<Rightarrow> string" where
  "firstNameOrEmail user =
     (case u_firstName user of
        None \<Rightarrow> u_email user
      | Some f \<Rightarrow> if f = [] then u_email user else f)"

definition familyNotification :: "nat \<Rightarrow> place \<Rightarrow> action \<Rightarrow> string \<Rightarrow> user \<Rightarrow> notification" where
  "familyNotification userId place a message familyMember =
     \<lparr>n_userId = u_id familyMember,
      n_type = ''geofence_'' @ actionString a,
      n_title = ''Location Alert'',
      n_message = message,
      n_data = [(''triggeredByUserId'', JNum userId),
                (''placeId'', JNum (p_id place)),
                (''placeName'', JStr (p_name place)),
                (''action'', JStr (actionString a))],
      n_isRead = False\<rparr>"

definition selfNotification :: "nat \<Rightarrow> place \<Rightarrow> action \<Rightarrow> notification" where
  "selfNotification userId place a =
     \<lparr>n_userId = userId,
      n_type = ''geofence_'' @ actionString a,
      n_title = ''Location Alert'',
      n_message = ''You '' @ (if a = Entered then ''entered'' else ''exited'') @ '' '' @ p_name place,
      n_data = [(''placeId'', JNum (p_id place)),
                (''placeName'', JStr (p_name place)),
                (''action'', JStr (actionString a))],
      n_isRead = False\<rparr>"

text \<open>
  The loop \<open>for (const familyMember of familyMembers) await storage.createNotification(...)\<close>:
  a throwing insert leaves the loop.
\<close>

fun notifyFamilyMembers ::
  "storage \<Rightarrow> nat \<Rightarrow> place \<Rightarrow> action \<Rightarrow> string \<Rightarrow> user list \<Rightarrow> world \<Rightarrow> (error + unit) \<times> world" where
  "notifyFamilyMembers st userId place a message [] w = (Inr (), w)"
| "notifyFamilyMembers st userId place a message (familyMember # rest) w =
     (case createNotification st (familyNotification userId place a message familyMember) w of
        (Inl e, w') \<Rightarrow> (Inl e, w')
      | (Inr _, w') \<Rightarrow> notifyFamilyMembers st userId place a message rest w')"

text \<open>The body of the \<open>try\<close> block of \<open>sendGeofenceNotification\<close>.\<close>

definition sendGeofenceNotificationBody ::
  "storage \<Rightarrow> int \<Rightarrow> nat \<Rightarrow> place \<Rightarrow> action \<Rightarrow> world \<Rightarrow> (error + unit) \<times> world" where
  "sendGeofenceNotificationBody st now userId place a w =
     (case getUser st userId of
        Inl e \<Rightarrow> (Inl e, w)
      | Inr None \<Rightarrow> (Inr (), w)
      | Inr (Some user) \<Rightarrow>
          (let message = firstNameOrEmail user @ '' has '' @ actionString a @ '' '' @ p_name place
           in case getFamilyMembers st userId of
                Inl e \<Rightarrow> (Inl e, w)
              | Inr familyMembers \<Rightarrow>
                  (case notifyFamilyMembers st userId place a message familyMembers w of
                     (Inl e, w1) \<Rightarrow> (Inl e, w1)
                   | (Inr _, w1) \<Rightarrow>
                       (case createNotification st (selfNotification userId place a) w1 of
                          (Inl e, w2) \<Rightarrow> (Inl e, w2)
                        | (Inr _, w2) \<Rightarrow>
                            (Inr (),
                             if broadcastHookInstalled w2
                             then broadcastNotification
                                    [(''type'', JStr ''geofence''),
                                     (''userId'', JNum userId),
                                     (''userName'', JStr (firstNameOrEmail user)),
                                     (''placeName'', JStr (p_name place)),
                                     (''action'', JStr (actionString a)),
                                     (''message'', JStr message),
                                     (''timestamp'', JTime now)] w2
                             else w2)))))"

text \<open>The \<open>catch\<close> logs the error and returns: only the state reached so far remains.\<close>

definition sendGeofenceNotification ::
  "storage \<Rightarrow> int \<Rightarrow> nat \<Rightarrow> place \<Rightarrow> action \<Rightarrow> world \<Rightarrow> world" where
  "sendGeofenceNotification st now userId place a w =
     snd (sendGeofenceNotificationBody st now userId place a w)"

section \<open>Geofence state tracker (src/unnamed/part_002)\<close>

text \<open>
  The loop over \<open>familyPlaces\<close>. The accumulator holds \<open>newGeofences\<close>, the calls of
  \<open>sendGeofenceNotification\<close> made so far (place and action, in order) and the process
  state.
\<close>

fun geofenceLoop ::
  "storage \<Rightarrow> int \<Rightarrow> nat \<Rightarrow> real \<Rightarrow> real \<Rightarrow> nat set \<Rightarrow> place list \<Rightarrow>
   nat set \<times> (place \<times> action) list \<times> world \<Rightarrow> nat set \<times> (place \<times> action) list \<times> world" where
  "geofenceLoop st now userId newLat newLon currentGeofences [] acc = acc"
| "geofenceLoop st now userId newLat newLon currentGeofences (place # rest) (newGeofences, sent, w) =
     (let isCurrentlyInside =
            isWithinGeofence newLat newLon (p_latitude place) (p_longitude place) defaultRadiusMeters;
          newGeofences' = (if isCurrentlyInside then insert (p_id place) newGeofences else newGeofences);
          wasInside = (p_id place \<in> currentGeofences)
      in if isCurrentlyInside \<and> \<not> wasInside
         then geofenceLoop st now userId newLat newLon currentGeofences rest
                (newGeofences', sent @ [(place, Entered)],
                 sendGeofenceNotification st now userId place Entered w)
         else if \<not> isCurrentlyInside \<and> wasInside
         then geofenceLoop st now userId newLat newLon currentGeofences rest
                (newGeofences', sent @ [(place, Exited)],
                 sendGeofenceNotification st now userId place Exited w)
         else geofenceLoop st now userId newLat newLon currentGeofences rest
                (newGeofences', sent, w))"

text \<open>
  \<open>checkGeofenceTransitions\<close> returns nothing in the source; the model returns the calls
  of \<open>sendGeofenceNotification\<close> it made, and the process state. A throwing
  \<open>getFamilyPlaces\<close> is caught by the enclosing \<open>try\<close>.
\<close>

definition checkGeofenceTransitions ::
  "storage \<Rightarrow> int \<Rightarrow> nat \<Rightarrow> real \<Rightarrow> real \<Rightarrow> world \<Rightarrow> (place \<times> action) list \<times> world" where
  "checkGeofenceTransitions st now userId newLat newLon w =
     (case getFamilyPlaces st userId of
        Inl e \<Rightarrow> ([], w)
      | Inr familyPlaces \<Rightarrow>
          if length familyPlaces = 0 then ([], w)
          else
            (let userKey = toString userId;
                 currentGeofences =
                   (case userGeofenceStates w userKey of None \<Rightarrow> {} | Some s \<Rightarrow> s)
             in case geofenceLoop st now userId newLat newLon currentGeofences familyPlaces ({}, [], w) of
                  (newGeofences, sent, w') \<Rightarrow>
                    (sent, w'\<lparr>userGeofenceStates := (userGeofenceStates w')(userKey \<mapsto> newGeofences)\<rparr>)))"

definition clearUserGeofenceState :: "nat \<Rightarrow> world \<Rightarrow> world" where
  "clearUserGeofenceState userId w =
     w\<lparr>userGeofenceStates := (userGeofenceStates w)(toString userId := None)\<rparr>"

text \<open>
  A sequence of checks for one user, one after the other. Each check has its own
  storage answers, clock value and position; the result lists, for each check, the
  calls of \<open>sendGeofenceNotification\<close> it made.
\<close>

fun runChecks ::
  "nat \<Rightarrow> (storage \<times> int \<times> real \<times> real) list \<Rightarrow> world \<Rightarrow> (place \<times> action) list list \<times> world" where
  "runChecks userId [] w = ([], w)"
| "runChecks userId ((st, now, newLat, newLon) # rest) w =
     (case checkGeofenceTransitions st now userId newLat newLon w of
        (sent, w') \<Rightarrow> (case runChecks userId rest w' of (sents, w'') \<Rightarrow> (sent # sents, w'')))"

section \<open>Location ingest (src/unnamed/part_001, POST /api/locations)\<close>

text \<open>
  A property of the request body as the schema sees it: missing, null, a number, a
  string, or a value of another kind.
\<close>

datatype bodyField = Absent | IsNull | IsNumber real | IsString string | IsOther

record locationBody =
  b_latitude :: bodyField
  b_longitude :: bodyField
  b_accuracy :: bodyField
  b_address :: bodyField
  b_type :: bodyField

text \<open>
  The schema \<open>insertLocationSchema\<close> is generated from the table \<open>locations\<close>
  (without \<open>id\<close> and \<open>timestamp\<close>): a column that is not null and has no default must
  be present with its type; a nullable column may be missing or null; a column that is
  not null and has a default may be missing but not null. Every other value makes
  \<open>parse\<close> throw.
\<close>

definition requiredNumber :: "bodyField \<Rightarrow> error + real" where
  "requiredNumber f = (case f of IsNumber x \<Rightarrow> Inr x | _ \<Rightarrow> Inl ParseError)"

definition nullableNumber :: "bodyField \<Rightarrow> error + real option" where
  "nullableNumber f =
     (case f of
        Absent \<Rightarrow> Inr None
      | IsNull \<Rightarrow> Inr None
      | IsNumber x \<Rightarrow> Inr (Some x)
      | _ \<Rightarrow> Inl ParseError)"

definition nullableString :: "bodyField \<Rightarrow> error + string option" where
  "nullableString f =
     (case f of
        Absent \<Rightarrow> Inr None
      | IsNull \<Rightarrow> Inr None
      | IsString x \<Rightarrow> Inr (Some x)
      | _ \<Rightarrow> Inl ParseError)"

definition defaultedString :: "bodyField \<Rightarrow> error + string option" where
  "defaultedString f =
     (case f of
        Absent \<Rightarrow> Inr None
      | IsString x \<Rightarrow> Inr (Some x)
      | _ \<Rightarrow> Inl ParseError)"

text \<open>\<open>insertLocationSchema.parse({...req.body, userId})\<close>.\<close>

definition parseInsertLocation :: "nat \<Rightarrow> locationBody \<Rightarrow> error + insertLocation" where
  "parseInsertLocation userId body =
     (case requiredNumber (b_latitude body) of
        Inl e \<Rightarrow> Inl e
      | Inr lat \<Rightarrow>
     (case requiredNumber (b_longitude body) of
        Inl e \<Rightarrow> Inl e
      | Inr lon \<Rightarrow>
     (case nullableNumber (b_accuracy body) of
        Inl e \<Rightarrow> Inl e
      | Inr accuracy \<Rightarrow>
     (case nullableString (b_address body) of
        Inl e \<Rightarrow> Inl e
      | Inr address \<Rightarrow>
     (case defaultedString (b_type body) of
        Inl e \<Rightarrow> Inl e
      | Inr type \<Rightarrow>
          Inr \<lparr>il_userId = userId, il_latitude = lat, il_longitude = lon,
               il_accuracy = accuracy, il_address = address, il_type = type\<rparr>)))))"

text \<open>The expression \<open>user?.firstName || user?.email || 'User'\<close>.\<close>

definition userNameOrDefault :: "user option \<Rightarrow> string" where
  "userNameOrDefault user =
     (case user of
        None \<Rightarrow> ''User''
      | Some u \<Rightarrow> if firstNameOrEmail u = [] then ''User'' else firstNameOrEmail u)"

definition movedNotification :: "string \<Rightarrow> location \<Rightarrow> nat \<Rightarrow> user \<Rightarrow> notification" where
  "movedNotification userName loc userId familyMember =
     \<lparr>n_userId = u_id familyMember,
      n_type = ''location'',
      n_title = ''Location Update'',
      n_message = userName @ '' updated their location'',
      n_data = [(''locationId'', JNum (l_id loc)), (''userId'', JNum userId)],
      n_isRead = False\<rparr>"

text \<open>
  The loop over the family members; each iteration has its own \<open>try\<close>/\<open>catch\<close>, so a
  throwing insert only skips the broadcast of that iteration.
\<close>

fun movedLoop :: "storage \<Rightarrow> int \<Rightarrow> string \<Rightarrow> location \<Rightarrow> nat \<Rightarrow> user list \<Rightarrow> world \<Rightarrow> world" where
  "movedLoop st now userName loc userId [] w = w"
| "movedLoop st now userName loc userId (familyMember # rest) w =
     (let w' =
        (case createNotification st (movedNotification userName loc userId familyMember) w of
           (Inl notificationError, w1) \<Rightarrow> w1
         | (Inr _, w1) \<Rightarrow>
             if broadcastHookInstalled w1
             then broadcastNotification
                    [(''type'', JStr ''notification''),
                     (''userId'', JNum (u_id familyMember)),
                     (''notificationType'', JStr ''location''),
                     (''message'', JStr (userName @ '' updated their location'')),
                     (''timestamp'', JTime now)] w1
             else w1)
      in movedLoop st now userName loc userId rest w')"

text \<open>
  The value of \<open>(global as any).lastLocationNotification?.[userId] || 0\<close>: a missing
  object, a missing entry and a stored 0 all read as 0.
\<close>

definition lastNotificationTime :: "world \<Rightarrow> nat \<Rightarrow> int" where
  "lastNotificationTime w userId =
     (case lastLocationNotification w of
        None \<Rightarrow> 0
      | Some m \<Rightarrow> (case m userId of None \<Rightarrow> 0 | Some t \<Rightarrow> if t = 0 then 0 else t))"

definition shouldCreateNotification :: "world \<Rightarrow> int \<Rightarrow> nat \<Rightarrow> bool" where
  "shouldCreateNotification w now userId =
     (let currentTime = now;
          timeSinceLastNotification = currentTime - lastNotificationTime w userId
      in timeSinceLastNotification > 5 * 60 * 1000)"

text \<open>The throttled block that creates the movement notifications.\<close>

definition movedNotificationStep ::
  "storage \<Rightarrow> int \<Rightarrow> string \<Rightarrow> location \<Rightarrow> nat \<Rightarrow> user list \<Rightarrow> world \<Rightarrow> world" where
  "movedNotificationStep st now userName loc userId familyMembers w =
     (if shouldCreateNotification w now userId \<and> length familyMembers > 0
      then
        (let tracking = (case lastLocationNotification w of None \<Rightarrow> Map.empty | Some m \<Rightarrow> m);
             w1 = w\<lparr>lastLocationNotification := Some (tracking(userId \<mapsto> now))\<rparr>
         in movedLoop st now userName loc userId familyMembers w1)
      else w)"

text \<open>
  \<open>broadcastLocationUpdate\<close>: the raw position push to the open channels of the family
  members. A rejected \<open>getFamilyMembers\<close> sends nothing.
\<close>

fun locationUpdateLoop :: "nat \<Rightarrow> location \<Rightarrow> user list \<Rightarrow> world \<Rightarrow> world" where
  "locationUpdateLoop userId loc [] w = w"
| "locationUpdateLoop userId loc (member # rest) w =
     (let w' =
        (case map_of (clients w) (toString (u_id member)) of
           None \<Rightarrow> w
         | Some client \<Rightarrow>
             if ch_readyState client = OPEN
             then w\<lparr>delivered := delivered w @
                       [(ch_id client,
                         [(''type'', JStr ''locationUpdate''),
                          (''userId'', JStr (toString userId)),
                          (''location'', JLocation loc)])]\<rparr>
             else w)
      in locationUpdateLoop userId loc rest w')"

definition broadcastLocationUpdate :: "storage \<Rightarrow> nat \<Rightarrow> location \<Rightarrow> world \<Rightarrow> world" where
  "broadcastLocationUpdate st userId loc w =
     (case getFamilyMembers st userId of
        Inl e \<Rightarrow> w
      | Inr familyMembers \<Rightarrow> locationUpdateLoop userId loc familyMembers w)"

datatype response = Json location | Status500 string

text \<open>
  The handler of \<open>POST /api/locations\<close>. Every throw inside its \<open>try\<close> answers with
  status 500 and keeps the state reached so far.
\<close>

definition postLocations :: "storage \<Rightarrow> int \<Rightarrow> nat \<Rightarrow> locationBody \<Rightarrow> world \<Rightarrow> response \<times> world" where
  "postLocations st now userId body w =
     (case parseInsertLocation userId body of
        Inl e \<Rightarrow> (Status500 ''Failed to save location'', w)
      | Inr locationData \<Rightarrow>
          (case saveLocation st now locationData w of
             (Inl e, w1) \<Rightarrow> (Status500 ''Failed to save location'', w1)
           | (Inr loc, w1) \<Rightarrow>
               (case getUser st userId of
                  Inl e \<Rightarrow> (Status500 ''Failed to save location'', w1)
                | Inr user \<Rightarrow>
                    (let userName = userNameOrDefault user
                     in case getFamilyMembers st userId of
                          Inl e \<Rightarrow> (Status500 ''Failed to save location'', w1)
                        | Inr familyMembers \<Rightarrow>
                            (let w2 = movedNotificationStep st now userName loc userId familyMembers w1;
                                 w3 = snd (checkGeofenceTransitions st now userId
                                             (l_latitude loc) (l_longitude loc) w2);
                                 w4 = broadcastLocationUpdate st userId loc w3
                             in (Json loc, w4))))))"

text \<open>Pings handled one after the other, each with its own storage answers and clock.\<close>

fun runPings :: "nat \<Rightarrow> (storage \<times> int \<times> locationBody) list \<Rightarrow> world \<Rightarrow> world" where
  "runPings userId [] w = w"
| "runPings userId ((st, now, body) # rest) w =
     runPings userId rest (snd (postLocations st now userId body w))"

section \<open>History compactor (src/unnamed/part_000, getFamilyLocationHistory)\<close>

text \<open>\<open>new Date(location.timestamp || new Date()).getTime()\<close>.\<close>

definition locationTime :: "int \<Rightarrow> location \<Rightarrow> int" where
  "locationTime now loc = (case l_timestamp loc of None \<Rightarrow> now | Some t \<Rightarrow> t)"

text \<open>
  The \<open>forEach\<close> over one member's locations, with the variable \<open>lastIncludedTime\<close>
  as an argument.
\<close>

fun filterLocations :: "int \<Rightarrow> int \<Rightarrow> location list \<Rightarrow> location list" where
  "filterLocations now lastIncludedTime [] = []"
| "filterLocations now lastIncludedTime (loc # rest) =
     (let timeDiff = \<bar>locationTime now loc - lastIncludedTime\<bar>;
          oneHour = 60 * 60 * 1000
      in if lastIncludedTime = 0 \<or> real_of_int timeDiff \<ge> real_of_int oneHour * 0.75
         then loc # filterLocations now (locationTime now loc) rest
         else filterLocations now lastIncludedTime rest)"

text \<open>
  The query joins locations, users and accepted family connections, keeps the rows of
  members who share their location and orders them newest first; that part is the
  database's, and \<open>rows\<close> stands for its rows. The condition
  \<open>timestamp >= twentyFourHoursAgo\<close> of the where clause is applied here (a null
  timestamp does not satisfy it).
\<close>

definition historyQuery :: "int \<Rightarrow> location list \<Rightarrow> location list" where
  "historyQuery now rows =
     (let twentyFourHoursAgo = now - 24 * 60 * 60 * 1000
      in filter (\<lambda>r. case l_timestamp r of None \<Rightarrow> False | Some t \<Rightarrow> t \<ge> twentyFourHoursAgo) rows)"

text \<open>
  The rows of the query are grouped by user id and each group is filtered, starting
  with \<open>lastIncludedTime = 0\<close>. The result maps the user id to the kept locations.
\<close>

definition getFamilyLocationHistory :: "int \<Rightarrow> location list \<Rightarrow> nat \<rightharpoonup> location list" where
  "getFamilyLocationHistory now rows =
     (let result = historyQuery now rows
      in (\<lambda>uid. if uid \<in> l_userId ` set result
                 then Some (filterLocations now 0 (filter (\<lambda>item. l_userId item = uid) result))
                 else None))"

section \<open>Periodic re-logging (src/server/locationLogger.ts)\<close>

definition HOUR_IN_MS :: int where
  "HOUR_IN_MS = 60 * 60 * 1000"

text \<open>In \<open>latestLocation.timestamp < twoHoursAgo\<close> a null timestamp compares as 0.\<close>

definition logUserLocation :: "storage \<Rightarrow> int \<Rightarrow> nat \<Rightarrow> world \<Rightarrow> world" where
  "logUserLocation st now userId w =
     (case getUser st userId of
        Inl e \<Rightarrow> w
      | Inr None \<Rightarrow> w
      | Inr (Some user) \<Rightarrow>
          if u_locationHistoryEnabled user \<noteq> Some True then w
          else
            (case getUserLatestLocation st userId of
               Inl e \<Rightarrow> w
             | Inr None \<Rightarrow> w
             | Inr (Some latestLocation) \<Rightarrow>
                 (let twoHoursAgo = now - 2 * HOUR_IN_MS
                  in if (case l_timestamp latestLocation of None \<Rightarrow> 0 | Some t \<Rightarrow> t) < twoHoursAgo
                     then w
                     else snd (saveLocation st now
                                 \<lparr>il_userId = userId,
                                  il_latitude = l_latitude latestLocation,
                                  il_longitude = l_longitude latestLocation,
                                  il_accuracy = l_accuracy latestLocation,
                                  il_address = l_address latestLocation,
                                  il_type = Some ''automatic_hourly''\<rparr> w))))"

section \<open>Notions used to state the properties\<close>

text \<open>
  \<open>appended P w w'\<close>: the state \<open>w'\<close> is \<open>w\<close> with notification rows satisfying \<open>P\<close>
  and channel deliveries added at the end, and nothing else changed.
\<close>

definition appended :: "(notification \<Rightarrow> bool) \<Rightarrow> world \<Rightarrow> world \<Rightarrow> bool" where
  "appended P w w' =
     (\<exists>ns ds. w' = w\<lparr>notifications := notifications w @ ns, delivered := delivered w @ ds\<rparr>
              \<and> list_all P ns)"

text \<open>The set stored for a user, empty if absent.\<close>

definition previousInside :: "world \<Rightarrow> nat \<Rightarrow> nat set" where
  "previousInside w userId =
     (case userGeofenceStates w (toString userId) of None \<Rightarrow> {} | Some s \<Rightarrow> s)"

text \<open>The ids of the candidate places whose center is within 20 meters of the position.\<close>

definition currentInside :: "real \<Rightarrow> real \<Rightarrow> place list \<Rightarrow> nat set" where
  "currentInside lat lon ps =
     p_id ` set (filter (\<lambda>p. isWithinGeofence lat lon (p_latitude p) (p_longitude p) defaultRadiusMeters) ps)"

text \<open>The call, if any, that one iteration of the loop makes for a place.\<close>

definition transitionOf :: "real \<Rightarrow> real \<Rightarrow> nat set \<Rightarrow> place \<Rightarrow> (place \<times> action) list" where
  "transitionOf lat lon currentGeofences p =
     (let isCurrentlyInside = isWithinGeofence lat lon (p_latitude p) (p_longitude p) defaultRadiusMeters;
          wasInside = (p_id p \<in> currentGeofences)
      in if isCurrentlyInside \<and> \<not> wasInside then [(p, Entered)]
         else if \<not> isCurrentlyInside \<and> wasInside then [(p, Exited)]
         else [])"

text \<open>The places of the calls with a given action, and the number of calls for one place.\<close>

definition placesSent :: "action \<Rightarrow> (place \<times> action) list \<Rightarrow> place list" where
  "placesSent a sent = map fst (filter (\<lambda>(q, b). b = a) sent)"

definition countSent :: "nat \<Rightarrow> action \<Rightarrow> (place \<times> action) list \<Rightarrow> nat" where
  "countSent pid a sent = length (filter (\<lambda>(q, b). p_id q = pid \<and> b = a) sent)"

text \<open>
  The invariant of the specification, in its words: along a sequence of checks, a place
  gets one \<open>entered\<close> at a check that finds the user inside after being outside, one
  \<open>exited\<close> at a check that finds the user outside after being inside, and nothing
  otherwise. The result lists the pair (number of entered, number of exited) per check.
\<close>

fun dwellNotifications :: "place \<Rightarrow> bool \<Rightarrow> (storage \<times> int \<times> real \<times> real) list \<Rightarrow> (nat \<times> nat) list" where
  "dwellNotifications p wasInside [] = []"
| "dwellNotifications p wasInside ((st, now, lat, lon) # rest) =
     (let inside = isWithinGeofence lat lon (p_latitude p) (p_longitude p) defaultRadiusMeters
      in ((if inside \<and> \<not> wasInside then 1 else 0, if \<not> inside \<and> wasInside then 1 else 0)
          # dwellNotifications p inside rest))"

text \<open>
  A place stays a candidate for a check when the storage answers the check with a
  place list that contains it, and the ids in that list are pairwise different (ids are
  the primary key of the table).
\<close>

definition staysCandidate :: "nat \<Rightarrow> place \<Rightarrow> storage \<times> int \<times> real \<times> real \<Rightarrow> bool" where
  "staysCandidate userId p c =
     (case getFamilyPlaces (fst c) userId of
        Inl e \<Rightarrow> False
      | Inr ps \<Rightarrow> p \<in> set ps \<and> distinct (map p_id ps))"

text \<open>Geofence notifications never have the type of a movement notification.\<close>

definition geofenceType :: "notification \<Rightarrow> bool" where
  "geofenceType n = (n_type n \<noteq> ''location'')"

text \<open>The movement notifications stored for a recipient.\<close>

definition countMoved :: "nat \<Rightarrow> world \<Rightarrow> nat" where
  "countMoved r w = length (filter (\<lambda>n. n_type n = ''location'' \<and> n_userId n = r) (notifications w))"

text \<open>The movement notification rows stored so far.\<close>

definition movedRows :: "world \<Rightarrow> notification list" where
  "movedRows w = filter (\<lambda>n. n_type n = ''location'') (notifications w)"

text \<open>
  How often the family list that the storage returns for a ping names a recipient, and
  the largest such number among the pings of a sequence.
\<close>

definition listedTimes :: "nat \<Rightarrow> nat \<Rightarrow> storage \<times> int \<times> locationBody \<Rightarrow> nat" where
  "listedTimes userId r ping =
     (case getFamilyMembers (fst ping) userId of
        Inl e \<Rightarrow> 0
      | Inr familyMembers \<Rightarrow> length (filter (\<lambda>m. u_id m = r) familyMembers))"

fun maxListed :: "nat \<Rightarrow> nat \<Rightarrow> (storage \<times> int \<times> locationBody) list \<Rightarrow> nat" where
  "maxListed userId r [] = 0"
| "maxListed userId r (ping # pings) = max (listedTimes userId r ping) (maxListed userId r pings)"

definition pingTimes :: "(storage \<times> int \<times> locationBody) list \<Rightarrow> int list" where
  "pingTimes pings = map (\<lambda>ping. fst (snd ping)) pings"

text \<open>The family list that the storage returns for a ping has pairwise different ids.\<close>

definition familyIdsDistinct :: "nat \<Rightarrow> storage \<times> int \<times> locationBody \<Rightarrow> bool" where
  "familyIdsDistinct userId ping =
     (case getFamilyMembers (fst ping) userId of
        Inl e \<Rightarrow> True
      | Inr familyMembers \<Rightarrow> distinct (map u_id familyMembers))"

text \<open>
  History compaction in the words of the specification: keep the first entry and set
  \<open>lastKept\<close> to its timestamp; keep a later entry if and only if its timestamp is at
  least 45 minutes away from \<open>lastKept\<close>, and then update \<open>lastKept\<close>.
\<close>

fun compactRest :: "int \<Rightarrow> int \<Rightarrow> location list \<Rightarrow> location list" where
  "compactRest now lastKept [] = []"
| "compactRest now lastKept (entry # rest) =
     (if \<bar>locationTime now entry - lastKept\<bar> \<ge> 45 * 60 * 1000
      then entry # compactRest now (locationTime now entry) rest
      else compactRest now lastKept rest)"

fun compactHistory :: "int \<Rightarrow> location list \<Rightarrow> location list" where
  "compactHistory now [] = []"
| "compactHistory now (first # rest) = first # compactRest now (locationTime now first) rest"

text \<open>
  The condition of the periodic re-logging in the words of the claim: the user exists
  with location history enabled, a latest ping exists, and its timestamp is within the
  last 2 hours.
\<close>

definition relogDue :: "storage \<Rightarrow> int \<Rightarrow> nat \<Rightarrow> bool" where
  "relogDue st now userId =
     (case getUser st userId of
        Inr (Some user) \<Rightarrow>
          u_locationHistoryEnabled user = Some True \<and>
          (case getUserLatestLocation st userId of
             Inr (Some latest) \<Rightarrow>
               (case l_timestamp latest of
                  Some t \<Rightarrow> now - 2 * 60 * 60 * 1000 \<le> t
                | None \<Rightarrow> False)
           | _ \<Rightarrow> False)
      | _ \<Rightarrow> False)"

section \<open>A concrete family\<close>

text \<open>
  Alice (the mover, id 4) with family member Bob; the places Home on the equator and
  Cabin at the pole; a storage that never throws; a fresh process state.
\<close>

definition alice :: user where
  "alice = \<lparr>u_id = 4, u_email = ''alice@example.com'', u_firstName = Some ''Alice'',
            u_locationHistoryEnabled = Some True\<rparr>"

definition bob :: user where
  "bob = \<lparr>u_id = 5, u_email = ''bob@example.com'', u_firstName = None,
          u_locationHistoryEnabled = Some True\<rparr>"

definition carol :: user where
  "carol = \<lparr>u_id = 6, u_email = ''carol@example.com'', u_firstName = Some ''Carol'',
            u_locationHistoryEnabled = Some False\<rparr>"

definition home :: place where
  "home = \<lparr>p_id = 7, p_name = ''Home'', p_latitude = 0, p_longitude = 0\<rparr>"

definition cabin :: place where
  "cabin = \<lparr>p_id = 8, p_name = ''Cabin'', p_latitude = 90, p_longitude = 0\<rparr>"

definition healthyStorage :: storage where
  "healthyStorage =
     \<lparr>getUser = (\<lambda>i. Inr (if i = 4 then Some alice else None)),
      getFamilyMembers = (\<lambda>i. Inr [bob]),
      getFamilyPlaces = (\<lambda>i. Inr [home, cabin]),
      getUserLatestLocation = (\<lambda>i. Inr None),
      createNotificationFails = (\<lambda>n. False),
      saveLocationFails = (\<lambda>l. False)\<rparr>"

definition emptyWorld :: world where
  "emptyWorld =
     \<lparr>notifications = [], locations = [], userGeofenceStates = Map.empty,
      lastLocationNotification = None, broadcastHookInstalled = True,
      clients = [], delivered = []\<rparr>"

text \<open>Alice at Home twice, at the Cabin twice, and at Home again.\<close>

definition walk :: "(storage \<times> int \<times> real \<times> real) list" where
  "walk = [(healthyStorage, 1000, 0, 0), (healthyStorage, 2000, 0, 0),
           (healthyStorage, 3000, 90, 0), (healthyStorage, 4000, 90, 0),
           (healthyStorage, 5000, 0, 0)]"

text \<open>
  A state that remembers Alice inside a place with id 9, which is no longer among the
  candidates, and a state that remembers her inside the Cabin.
\<close>

definition staleWorld :: world where
  "staleWorld = emptyWorld\<lparr>userGeofenceStates := [toString 4 \<mapsto> {9}]\<rparr>"

definition atCabinWorld :: world where
  "atCabinWorld = emptyWorld\<lparr>userGeofenceStates := [toString 4 \<mapsto> {8}]\<rparr>"

text \<open>
  A storage whose insert throws for every notification addressed to Bob, with Bob and
  Carol as family; a state with three registered channels, one of them closed and one
  (key 9) of a user outside the family.
\<close>

definition flakyStorage :: storage where
  "flakyStorage =
     healthyStorage\<lparr>getFamilyMembers := (\<lambda>i. Inr [bob, carol]),
                    createNotificationFails := (\<lambda>n. n_userId n = 5)\<rparr>"

definition connectedWorld :: world where
  "connectedWorld =
     emptyWorld\<lparr>clients := [(''5'', \<lparr>ch_id = 1, ch_readyState = OPEN\<rparr>),
                            (''6'', \<lparr>ch_id = 2, ch_readyState = CLOSED\<rparr>),
                            (''9'', \<lparr>ch_id = 3, ch_readyState = OPEN\<rparr>)]\<rparr>"

definition pingLocation :: location where
  "pingLocation = \<lparr>l_id = 1, l_userId = 4, l_latitude = 0, l_longitude = 0, l_accuracy = None,
                   l_address = None, l_type = ''manual'', l_timestamp = Some 1000\<rparr>"

definition homeAlert :: json_object where
  "homeAlert = [(''type'', JStr ''geofence''), (''userId'', JNum 4), (''userName'', JStr ''Alice''),
                (''placeName'', JStr ''Home''), (''action'', JStr ''entered''),
                (''message'', JStr ''Alice has entered Home''), (''timestamp'', JTime 1000)]"

text \<open>
  A state in which Alice's last movement notification was sent at time 1000000, a
  request body at Home, and three pings within 5 minutes.
\<close>

definition throttledWorld :: world where
  "throttledWorld = emptyWorld\<lparr>lastLocationNotification := Some [4 \<mapsto> 1000000]\<rparr>"

definition homeBody :: locationBody where
  "homeBody = \<lparr>b_latitude = IsNumber 0, b_longitude = IsNumber 0, b_accuracy = Absent,
               b_address = IsNull, b_type = Absent\<rparr>"

text \<open>The same body with \<open>type: null\<close>, which the schema refuses.\<close>

definition nullTypeBody :: locationBody where
  "nullTypeBody = homeBody\<lparr>b_type := IsNull\<rparr>"

definition burst :: "(storage \<times> int \<times> locationBody) list" where
  "burst = [(healthyStorage, 1300001, homeBody), (healthyStorage, 1400000, homeBody),
            (healthyStorage, 1600001, homeBody)]"

text \<open>
  A storage whose family query lists Bob twice (two accepted connection rows for the
  same pair), and a storage whose every notification insert throws.
\<close>

definition twiceListedStorage :: storage where
  "twiceListedStorage = healthyStorage\<lparr>getFamilyMembers := (\<lambda>i. Inr [bob, bob])\<rparr>"

definition failingInserts :: storage where
  "failingInserts = healthyStorage\<lparr>createNotificationFails := (\<lambda>n. True)\<rparr>"

text \<open>A storage whose place query throws.\<close>

definition brokenPlacesStorage :: storage where
  "brokenPlacesStorage = healthyStorage\<lparr>getFamilyPlaces := (\<lambda>i. Inl StorageError)\<rparr>"

text \<open>A ping of Bob with a timestamp given in minutes, and a recent ping of Alice.\<close>

definition pingAtMinute :: "int \<Rightarrow> location" where
  "pingAtMinute m = \<lparr>l_id = 1, l_userId = 5, l_latitude = 0, l_longitude = 0, l_accuracy = None,
                     l_address = None, l_type = ''manual'', l_timestamp = Some (m * 60 * 1000)\<rparr>"

definition recentPing :: location where
  "recentPing = \<lparr>l_id = 1, l_userId = 4, l_latitude = 0, l_longitude = 0, l_accuracy = Some 12,
                 l_address = Some ''1 Main St'', l_type = ''manual'', l_timestamp = Some 9000000\<rparr>"

definition relogStorage :: storage where
  "relogStorage = healthyStorage\<lparr>getUserLatestLocation := (\<lambda>i. Inr (Some recentPing))\<rparr>"

section \<open>Facts about the distance engine\<close>

lemma calculateDistance_same: "calculateDistance lat lon lat lon = 0"
  by (simp add: calculateDistance_def atan2_def)

lemma calculateDistance_sym:
  "calculateDistance lat1 lon1 lat2 lon2 = calculateDistance lat2 lon2 lat1 lon1"
proof -
  have s: "sin (((a - b) * pi) / 180 / 2) * sin (((a - b) * pi) / 180 / 2) =
           sin (((b - a) * pi) / 180 / 2) * sin (((b - a) * pi) / 180 / 2)" for a b :: real
  proof -
    have "((a - b) * pi) / 180 / 2 = - (((b - a) * pi) / 180 / 2)"
      by (simp add: field_simps)
    then show ?thesis
      by (simp only: sin_minus)
  qed
  show ?thesis
    unfolding calculateDistance_def Let_def
    by (simp only: mult.assoc s [of lat1 lat2] s [of lon1 lon2]
        mult.left_commute [of "cos ((lat1 * pi) / 180)" "cos ((lat2 * pi) / 180)"])
qed


section \<open>Facts about the notification fan-out\<close>

lemma appended_refl: "appended P w w"
  unfolding appended_def
  by (rule exI [of _ "[]"], rule exI [of _ "[]"]) simp

lemma appended_trans: "appended P w w1 \<Longrightarrow> appended P w1 w2 \<Longrightarrow> appended P w w2"
  unfolding appended_def
proof (elim exE conjE)
  fix ns ds ns' ds'
  assume a: "w1 = w\<lparr>notifications := notifications w @ ns, delivered := delivered w @ ds\<rparr>"
    and b: "w2 = w1\<lparr>notifications := notifications w1 @ ns', delivered := delivered w1 @ ds'\<rparr>"
    and p: "list_all P ns" "list_all P ns'"
  have "w2 = w\<lparr>notifications := notifications w @ (ns @ ns'), delivered := delivered w @ (ds @ ds')\<rparr>"
    by (simp add: a b)
  moreover have "list_all P (ns @ ns')" using p by simp
  ultimately show "\<exists>ns ds. w2 = w\<lparr>notifications := notifications w @ ns, delivered := delivered w @ ds\<rparr> \<and> list_all P ns"
    by blast
qed

lemma appended_mono: "appended P w w' \<Longrightarrow> (\<And>n. P n \<Longrightarrow> Q n) \<Longrightarrow> appended Q w w'"
  unfolding appended_def by (auto simp: list_all_iff)

lemma appendedI:
  "w' = w\<lparr>notifications := notifications w @ ns, delivered := delivered w @ ds\<rparr> \<Longrightarrow>
   list_all P ns \<Longrightarrow> appended P w w'"
  unfolding appended_def by blast

lemma appended_createNotification:
  "P n \<Longrightarrow> appended P w (snd (createNotification st n w))"
proof (cases "createNotificationFails st n")
  case True
  then show ?thesis by (simp add: createNotification_def appended_refl)
next
  case False
  assume "P n"
  with False show ?thesis
    by (intro appendedI [where ns = "[n]" and ds = "[]"]) (simp_all add: createNotification_def)
qed

lemma appended_broadcastNotification: "appended P w (broadcastNotification m w)"
  unfolding appended_def broadcastNotification_def
  by (rule exI [of _ "[]"], rule exI [of _ "broadcastToClients m (clients w)"]) simp

lemma appended_fields:
  assumes "appended P w w'"
  shows "userGeofenceStates w' = userGeofenceStates w"
    and "lastLocationNotification w' = lastLocationNotification w"
    and "clients w' = clients w"
    and "broadcastHookInstalled w' = broadcastHookInstalled w"
    and "locations w' = locations w"
  using assms unfolding appended_def by auto


lemma geofenceType_family: "geofenceType (familyNotification u p a m f)"
  by (cases a) (simp_all add: geofenceType_def familyNotification_def actionString_def)

lemma geofenceType_self: "geofenceType (selfNotification u p a)"
  by (cases a) (simp_all add: geofenceType_def selfNotification_def actionString_def)

lemma appended_notifyFamilyMembers:
  "appended geofenceType w (snd (notifyFamilyMembers st u p a m fs w))"
proof (induction fs arbitrary: w)
  case Nil
  show ?case by (simp add: appended_refl)
next
  case (Cons f fs)
  have step: "appended geofenceType w (snd (createNotification st (familyNotification u p a m f) w))"
    by (rule appended_createNotification) (rule geofenceType_family)
  show ?case
  proof (cases "createNotification st (familyNotification u p a m f) w")
    case (Pair r w1)
    with step have w1: "appended geofenceType w w1" by simp
    show ?thesis
    proof (cases r)
      case (Inl e)
      with Pair w1 show ?thesis by simp
    next
      case (Inr v)
      with Pair have "snd (notifyFamilyMembers st u p a m (f # fs) w) = snd (notifyFamilyMembers st u p a m fs w1)"
        by simp
      with appended_trans [OF w1 Cons.IH [of w1]] show ?thesis by simp
    qed
  qed
qed

lemma appended_sendGeofenceNotification:
  "appended geofenceType w (sendGeofenceNotification st now u p a w)"
proof (cases "getUser st u")
  case (Inl e)
  then show ?thesis
    by (simp add: sendGeofenceNotification_def sendGeofenceNotificationBody_def appended_refl)
next
  case (Inr uo)
  show ?thesis
  proof (cases uo)
    case None
    with Inr show ?thesis
      by (simp add: sendGeofenceNotification_def sendGeofenceNotificationBody_def appended_refl)
  next
    case (Some user)
    show ?thesis
    proof (cases "getFamilyMembers st u")
      case (Inl e)
      with Inr Some show ?thesis
        by (simp add: sendGeofenceNotification_def sendGeofenceNotificationBody_def appended_refl)
    next
      case fam: (Inr fs)
      define m where "m = firstNameOrEmail user @ '' has '' @ actionString a @ '' '' @ p_name p"
      obtain r1 w1 where n1: "notifyFamilyMembers st u p a m fs w = (r1, w1)"
        by (cases "notifyFamilyMembers st u p a m fs w")
      have a1: "appended geofenceType w w1"
        using appended_notifyFamilyMembers [of w st u p a m fs] n1 by simp
      obtain r2 w2 where n2: "createNotification st (selfNotification u p a) w1 = (r2, w2)"
        by (cases "createNotification st (selfNotification u p a) w1")
      have a2: "appended geofenceType w1 w2"
        using appended_createNotification [of geofenceType "selfNotification u p a" w1 st] n2
        by (simp add: geofenceType_self)
      have a12: "appended geofenceType w w2" by (rule appended_trans [OF a1 a2])
      show ?thesis
      proof (cases r1)
        case (Inl e)
        with Inr Some fam n1 a1 show ?thesis
          by (simp add: sendGeofenceNotification_def sendGeofenceNotificationBody_def m_def)
      next
        case r1: (Inr v)
        show ?thesis
        proof (cases r2)
          case (Inl e)
          with Inr Some fam n1 n2 r1 a12 show ?thesis
            by (simp add: sendGeofenceNotification_def sendGeofenceNotificationBody_def m_def)
        next
          case r2: (Inr v2)
          with Inr Some fam n1 n2 r1 a12 appended_trans [OF a12 appended_broadcastNotification]
          show ?thesis
            by (simp add: sendGeofenceNotification_def sendGeofenceNotificationBody_def m_def)
        qed
      qed
    qed
  qed
qed


section \<open>Facts about the geofence loop\<close>

lemma currentInside_Cons:
  "currentInside lat lon (p # ps) =
     (if isWithinGeofence lat lon (p_latitude p) (p_longitude p) defaultRadiusMeters
      then insert (p_id p) (currentInside lat lon ps) else currentInside lat lon ps)"
  by (simp add: currentInside_def)

lemma geofenceLoop_result:
  "\<exists>w'. geofenceLoop st now u lat lon cur ps (ng, sent, w) =
          (ng \<union> currentInside lat lon ps, sent @ concat (map (transitionOf lat lon cur) ps), w')
        \<and> appended geofenceType w w'"
proof (induction ps arbitrary: ng sent w)
  case Nil
  show ?case by (simp add: currentInside_def appended_refl)
next
  case (Cons p ps)
  let ?inside = "isWithinGeofence lat lon (p_latitude p) (p_longitude p) defaultRadiusMeters"
  let ?ng = "if ?inside then insert (p_id p) ng else ng"
  let ?w = "\<lambda>a. sendGeofenceNotification st now u p a w"
  have ng: "?ng \<union> currentInside lat lon ps = ng \<union> currentInside lat lon (p # ps)"
    by (simp add: currentInside_Cons)
  consider (ent) "?inside" "p_id p \<notin> cur" | (ex) "\<not> ?inside" "p_id p \<in> cur"
    | (same) "?inside \<longleftrightarrow> p_id p \<in> cur" by blast
  then show ?case
  proof cases
    case ent
    from Cons.IH [of ?ng "sent @ [(p, Entered)]" "?w Entered"] obtain w' where
      r: "geofenceLoop st now u lat lon cur ps (?ng, sent @ [(p, Entered)], ?w Entered) =
          (?ng \<union> currentInside lat lon ps,
           (sent @ [(p, Entered)]) @ concat (map (transitionOf lat lon cur) ps), w')"
      and a: "appended geofenceType (?w Entered) w'" by blast
    have "appended geofenceType w w'"
      by (rule appended_trans [OF appended_sendGeofenceNotification a])
    moreover have "geofenceLoop st now u lat lon cur (p # ps) (ng, sent, w) =
          (ng \<union> currentInside lat lon (p # ps), sent @ concat (map (transitionOf lat lon cur) (p # ps)), w')"
      using ent r ng by (simp add: transitionOf_def)
    ultimately show ?thesis by blast
  next
    case ex
    from Cons.IH [of ?ng "sent @ [(p, Exited)]" "?w Exited"] obtain w' where
      r: "geofenceLoop st now u lat lon cur ps (?ng, sent @ [(p, Exited)], ?w Exited) =
          (?ng \<union> currentInside lat lon ps,
           (sent @ [(p, Exited)]) @ concat (map (transitionOf lat lon cur) ps), w')"
      and a: "appended geofenceType (?w Exited) w'" by blast
    have "appended geofenceType w w'"
      by (rule appended_trans [OF appended_sendGeofenceNotification a])
    moreover have "geofenceLoop st now u lat lon cur (p # ps) (ng, sent, w) =
          (ng \<union> currentInside lat lon (p # ps), sent @ concat (map (transitionOf lat lon cur) (p # ps)), w')"
      using ex r ng by (simp add: transitionOf_def)
    ultimately show ?thesis by blast
  next
    case same
    from Cons.IH [of ?ng sent w] obtain w' where
      r: "geofenceLoop st now u lat lon cur ps (?ng, sent, w) =
          (?ng \<union> currentInside lat lon ps, sent @ concat (map (transitionOf lat lon cur) ps), w')"
      and a: "appended geofenceType w w'" by blast
    have "geofenceLoop st now u lat lon cur (p # ps) (ng, sent, w) =
          (ng \<union> currentInside lat lon (p # ps), sent @ concat (map (transitionOf lat lon cur) (p # ps)), w')"
      using same r ng by (simp add: transitionOf_def)
    with a show ?thesis by blast
  qed
qed

lemma checkGeofenceTransitions_result:
  assumes "getFamilyPlaces st u = Inr ps" and "ps \<noteq> []"
  shows "\<exists>w'. checkGeofenceTransitions st now u lat lon w =
           (concat (map (transitionOf lat lon (previousInside w u)) ps),
            w'\<lparr>userGeofenceStates := (userGeofenceStates w)(toString u \<mapsto> currentInside lat lon ps)\<rparr>)
         \<and> appended geofenceType w w'"
proof -
  from geofenceLoop_result [of st now u lat lon "previousInside w u" ps "{}" "[]" w]
  obtain w' where
    r: "geofenceLoop st now u lat lon (previousInside w u) ps ({}, [], w) =
          (currentInside lat lon ps, concat (map (transitionOf lat lon (previousInside w u)) ps), w')"
    and a: "appended geofenceType w w'" by auto
  have "userGeofenceStates w' = userGeofenceStates w"
    using a by (rule appended_fields)
  with assms r have "checkGeofenceTransitions st now u lat lon w =
           (concat (map (transitionOf lat lon (previousInside w u)) ps),
            w'\<lparr>userGeofenceStates := (userGeofenceStates w)(toString u \<mapsto> currentInside lat lon ps)\<rparr>)"
    by (simp add: checkGeofenceTransitions_def previousInside_def Let_def)
  with a show ?thesis by blast
qed

lemma checkGeofenceTransitions_skip:
  "getFamilyPlaces st u = Inl e \<or> getFamilyPlaces st u = Inr [] \<Longrightarrow>
   checkGeofenceTransitions st now u lat lon w = ([], w)"
  by (auto simp: checkGeofenceTransitions_def)

lemma countSent_append: "countSent i a (xs @ ys) = countSent i a xs + countSent i a ys"
  by (simp add: countSent_def)

lemma countSent_transitionOf:
  "countSent i a (transitionOf lat lon cur q) =
     (if p_id q = i \<and>
         (a = Entered \<and> isWithinGeofence lat lon (p_latitude q) (p_longitude q) defaultRadiusMeters
            \<and> p_id q \<notin> cur
          \<or> a = Exited \<and> \<not> isWithinGeofence lat lon (p_latitude q) (p_longitude q) defaultRadiusMeters
            \<and> p_id q \<in> cur)
      then 1 else 0)"
  by (cases a) (auto simp: countSent_def transitionOf_def Let_def)

lemma countSent_absent:
  "i \<notin> p_id ` set ps \<Longrightarrow> countSent i a (concat (map (transitionOf lat lon cur) ps)) = 0"
  by (induction ps) (simp_all add: countSent_append countSent_transitionOf, simp add: countSent_def)

lemma countSent_transitions:
  assumes "p \<in> set ps" and "distinct (map p_id ps)"
  shows "countSent (p_id p) a (concat (map (transitionOf lat lon cur) ps)) =
         (case a of
            Entered \<Rightarrow> if isWithinGeofence lat lon (p_latitude p) (p_longitude p) defaultRadiusMeters
                          \<and> p_id p \<notin> cur then 1 else 0
          | Exited \<Rightarrow> if \<not> isWithinGeofence lat lon (p_latitude p) (p_longitude p) defaultRadiusMeters
                          \<and> p_id p \<in> cur then 1 else 0)"
  using assms
proof (induction ps)
  case Nil
  then show ?case by simp
next
  case (Cons q ps)
  show ?case
  proof (cases "p = q")
    case True
    with Cons.prems have "p_id p \<notin> p_id ` set ps" by auto
    then have "countSent (p_id p) a (concat (map (transitionOf lat lon cur) ps)) = 0"
      by (rule countSent_absent)
    with True show ?thesis
      by (cases a) (simp_all add: countSent_append countSent_transitionOf)
  next
    case False
    with Cons.prems have in_ps: "p \<in> set ps" and d: "distinct (map p_id ps)" and ne: "p_id q \<noteq> p_id p"
      by auto
    have "countSent (p_id p) a (transitionOf lat lon cur q) = 0"
      using ne by (simp add: countSent_transitionOf)
    with Cons.IH [OF in_ps d] show ?thesis
      by (simp add: countSent_append)
  qed
qed

lemma currentInside_member:
  assumes "p \<in> set ps" and "distinct (map p_id ps)"
  shows "p_id p \<in> currentInside lat lon ps \<longleftrightarrow>
         isWithinGeofence lat lon (p_latitude p) (p_longitude p) defaultRadiusMeters"
proof -
  have "q = p" if "q \<in> set ps" "p_id q = p_id p" for q
    using that assms by (meson distinct_map inj_onD)
  then show ?thesis
    using assms(1) by (auto simp: currentInside_def)
qed

lemma placesSent_append: "placesSent a (xs @ ys) = placesSent a xs @ placesSent a ys"
  by (simp add: placesSent_def)

lemma placesSent_transitionOf:
  "placesSent a (transitionOf lat lon cur q) =
     (if a = Entered \<and> isWithinGeofence lat lon (p_latitude q) (p_longitude q) defaultRadiusMeters
            \<and> p_id q \<notin> cur
          \<or> a = Exited \<and> \<not> isWithinGeofence lat lon (p_latitude q) (p_longitude q) defaultRadiusMeters
            \<and> p_id q \<in> cur
      then [q] else [])"
  by (cases a) (auto simp: placesSent_def transitionOf_def Let_def)

lemma entered_ids:
  "p_id ` set (placesSent Entered (concat (map (transitionOf lat lon cur) ps))) =
   currentInside lat lon ps - cur"
proof (induction ps)
  case Nil
  show ?case by (simp add: placesSent_def currentInside_def)
next
  case (Cons q ps)
  then show ?case
    by (simp add: placesSent_append placesSent_transitionOf currentInside_Cons image_Un) blast
qed

lemma exited_ids:
  "distinct (map p_id ps) \<Longrightarrow>
   p_id ` set (placesSent Exited (concat (map (transitionOf lat lon cur) ps))) =
   (cur - currentInside lat lon ps) \<inter> p_id ` set ps"
proof (induction ps)
  case Nil
  show ?case by (simp add: placesSent_def)
next
  case (Cons q ps)
  then have nq: "p_id q \<notin> p_id ` set ps" and d: "distinct (map p_id ps)" by auto
  have nin: "p_id q \<notin> currentInside lat lon ps"
    using nq by (auto simp: currentInside_def)
  from Cons.IH [OF d] nq nin show ?case
    by (simp add: placesSent_append placesSent_transitionOf currentInside_Cons image_Un) blast
qed


section \<open>Concrete distances\<close>

lemma isWithinGeofence_same [simp]: "isWithinGeofence lat lon lat lon defaultRadiusMeters"
  by (simp add: isWithinGeofence_def defaultRadiusMeters_def calculateDistance_def atan2_def)

lemma distance_equator_to_pole: "calculateDistance 0 0 90 0 = 6371 * (pi / 2) * 1000"
proof -
  have h: "(90 * pi) / 180 / 2 = pi / 4" by simp
  have s: "sin (pi / 4) * sin (pi / 4) = 1 / 2"
    by (simp add: sin_45)
  have a: "atan2 (sqrt (1 / 2)) (sqrt (1 / 2)) = pi / 4"
    by (simp add: atan2_def arctan_one real_sqrt_divide)
  have "calculateDistance 0 0 90 0 = 6371 * (2 * atan2 (sqrt (1 / 2)) (sqrt (1 - 1 / 2))) * 1000"
    unfolding calculateDistance_def Let_def
    by (simp only: diff_zero mult_zero_left div_0 sin_zero mult_zero_right add_0_right h s)
  also have "\<dots> = 6371 * (pi / 2) * 1000"
    using a by simp
  finally show ?thesis .
qed

lemma pole_outside [simp]: "\<not> isWithinGeofence 0 0 90 0 defaultRadiusMeters"
proof -
  have "2 \<le> pi" by (rule pi_ge_two)
  then have "20 < 6371 * (pi / 2) * 1000" by simp
  then show ?thesis
    by (simp add: isWithinGeofence_def defaultRadiusMeters_def distance_equator_to_pole)
qed

lemma pole_outside' [simp]: "\<not> isWithinGeofence 90 0 0 0 defaultRadiusMeters"
  using pole_outside calculateDistance_sym [of 0 0 90 0]
  by (simp add: isWithinGeofence_def)


section \<open>One notification per dwell transition\<close>

lemma previousInside_after_check:
  assumes "getFamilyPlaces st u = Inr ps" and "ps \<noteq> []"
  shows "previousInside (snd (checkGeofenceTransitions st now u lat lon w)) u = currentInside lat lon ps"
proof -
  from checkGeofenceTransitions_result [OF assms, of now lat lon w] obtain w' where
    "checkGeofenceTransitions st now u lat lon w =
       (concat (map (transitionOf lat lon (previousInside w u)) ps),
        w'\<lparr>userGeofenceStates := (userGeofenceStates w)(toString u \<mapsto> currentInside lat lon ps)\<rparr>)"
    by blast
  then show ?thesis by (simp add: previousInside_def)
qed

lemma sent_of_check:
  assumes "getFamilyPlaces st u = Inr ps" and "ps \<noteq> []"
  shows "fst (checkGeofenceTransitions st now u lat lon w) =
         concat (map (transitionOf lat lon (previousInside w u)) ps)"
proof -
  from checkGeofenceTransitions_result [OF assms, of now lat lon w] obtain w' where
    "checkGeofenceTransitions st now u lat lon w =
       (concat (map (transitionOf lat lon (previousInside w u)) ps),
        w'\<lparr>userGeofenceStates := (userGeofenceStates w)(toString u \<mapsto> currentInside lat lon ps)\<rparr>)"
    by blast
  then show ?thesis by simp
qed

lemma runChecks_Cons:
  "fst (runChecks u ((st, now, lat, lon) # rest) w) =
     fst (checkGeofenceTransitions st now u lat lon w)
     # fst (runChecks u rest (snd (checkGeofenceTransitions st now u lat lon w)))"
  by (simp split: prod.splits)

text \<open>
  Claim C1: for a user and a place that stays in the candidate list along a sequence of
  checks run one after the other, each check calls the notification dispatcher for that
  place exactly once with \<open>entered\<close> when it finds the user inside after being outside,
  exactly once with \<open>exited\<close> when it finds the user outside after being inside, and
  not at all otherwise, however many consecutive checks report the same side. In
  particular a second check at the position of the place, right after entering, sends
  no second \<open>entered\<close>.
\<close>

theorem dwell_notifications_exactly_once:
  assumes "list_all (staysCandidate userId p) checks"
  shows "map (\<lambda>sent. (countSent (p_id p) Entered sent, countSent (p_id p) Exited sent))
           (fst (runChecks userId checks w))
         = dwellNotifications p (p_id p \<in> previousInside w userId) checks
       \<and> dwellNotifications p False
           [(st1, now1, p_latitude p, p_longitude p), (st2, now2, p_latitude p, p_longitude p)]
         = [(1, 0), (0, 0)]"
proof
  show "map (\<lambda>sent. (countSent (p_id p) Entered sent, countSent (p_id p) Exited sent))
           (fst (runChecks userId checks w))
         = dwellNotifications p (p_id p \<in> previousInside w userId) checks"
    using assms
  proof (induction checks arbitrary: w)
    case Nil
    show ?case by simp
  next
    case (Cons c checks)
    obtain st now lat lon where c: "c = (st, now, lat, lon)" by (cases c) auto
    from Cons.prems c obtain ps where
      ps: "getFamilyPlaces st userId = Inr ps" "p \<in> set ps" "distinct (map p_id ps)"
      by (auto simp: staysCandidate_def split: sum.splits)
    then have ne: "ps \<noteq> []" by auto
    let ?w1 = "snd (checkGeofenceTransitions st now userId lat lon w)"
    let ?inside = "isWithinGeofence lat lon (p_latitude p) (p_longitude p) defaultRadiusMeters"
    have was: "(p_id p \<in> previousInside ?w1 userId) = ?inside"
      by (simp add: previousInside_after_check [OF ps(1) ne] currentInside_member [OF ps(2,3)])
    have rest: "list_all (staysCandidate userId p) checks"
      using Cons.prems by simp
    have ih: "map (\<lambda>sent. (countSent (p_id p) Entered sent, countSent (p_id p) Exited sent))
                (fst (runChecks userId checks ?w1))
              = dwellNotifications p ?inside checks"
      using Cons.IH [OF rest, of ?w1] was by simp
    have here: "fst (checkGeofenceTransitions st now userId lat lon w) =
                concat (map (transitionOf lat lon (previousInside w userId)) ps)"
      by (rule sent_of_check [OF ps(1) ne])
    show ?case
      unfolding c runChecks_Cons
      by (simp add: ih here countSent_transitions [OF ps(2,3)])
  qed
next
  show "dwellNotifications p False
           [(st1, now1, p_latitude p, p_longitude p), (st2, now2, p_latitude p, p_longitude p)]
         = [(1, 0), (0, 0)]"
    by simp
qed


lemma walk_rows:
  "map (\<lambda>n. (n_userId n, n_message n)) (notifications (snd (runChecks 4 walk emptyWorld)))
   = [(5, ''Alice has entered Home''), (4, ''You entered Home''),
      (5, ''Alice has exited Home''), (4, ''You exited Home''),
      (5, ''Alice has entered Cabin''), (4, ''You entered Cabin''),
      (5, ''Alice has entered Home''), (4, ''You entered Home''),
      (5, ''Alice has exited Cabin''), (4, ''You exited Cabin'')]"
  by (simp add: walk_def checkGeofenceTransitions_def healthyStorage_def emptyWorld_def
      home_def cabin_def alice_def bob_def sendGeofenceNotification_def
      sendGeofenceNotificationBody_def createNotification_def broadcastNotification_def
      familyNotification_def selfNotification_def firstNameOrEmail_def actionString_def Let_def)

text \<open>
  The walk of Alice: Home, Home again, Cabin, Cabin again, Home. For Home the checks
  send entered, nothing, exited, nothing, entered; the rows stored along the walk are
  one per recipient and transition.
\<close>

theorem dwell_notifications_exactly_once_witness:
  "list_all (staysCandidate 4 home) walk
   \<and> map (\<lambda>sent. (countSent (p_id home) Entered sent, countSent (p_id home) Exited sent))
        (fst (runChecks 4 walk emptyWorld))
     = [(1, 0), (0, 0), (0, 1), (0, 0), (1, 0)]
   \<and> map (\<lambda>n. (n_userId n, n_message n)) (notifications (snd (runChecks 4 walk emptyWorld)))
     = [(5, ''Alice has entered Home''), (4, ''You entered Home''),
        (5, ''Alice has exited Home''), (4, ''You exited Home''),
        (5, ''Alice has entered Cabin''), (4, ''You entered Cabin''),
        (5, ''Alice has entered Home''), (4, ''You entered Home''),
        (5, ''Alice has exited Cabin''), (4, ''You exited Cabin'')]"
proof -
  have h: "list_all (staysCandidate 4 home) walk"
    by (simp add: walk_def staysCandidate_def healthyStorage_def home_def cabin_def)
  have e: "dwellNotifications home (p_id home \<in> previousInside emptyWorld 4) walk
           = [(1, 0), (0, 0), (0, 1), (0, 0), (1, 0)]"
    by (simp add: walk_def home_def previousInside_def emptyWorld_def)
  from dwell_notifications_exactly_once [OF h, of emptyWorld] have
    "map (\<lambda>sent. (countSent (p_id home) Entered sent, countSent (p_id home) Exited sent))
        (fst (runChecks 4 walk emptyWorld))
     = [(1, 0), (0, 0), (0, 1), (0, 0), (1, 0)]"
    by (simp only: e)
  with h walk_rows show ?thesis by blast
qed


section \<open>Transitions of one check\<close>

lemma healthy_places [simp]: "getFamilyPlaces healthyStorage i = Inr [home, cabin]"
  by (simp add: healthyStorage_def)

lemma transition_home_at_home:
  "transitionOf 0 0 cur home = (if 7 \<in> cur then [] else [(home, Entered)])"
  by (simp add: transitionOf_def home_def)

lemma transition_cabin_at_home:
  "transitionOf 0 0 cur cabin = (if 8 \<in> cur then [(cabin, Exited)] else [])"
  by (simp add: transitionOf_def cabin_def)

lemma currentInside_at_home: "currentInside 0 0 [home, cabin] = {7}"
  by (simp add: currentInside_def home_def cabin_def)

text \<open>
  The stored set can hold an id that is no longer a candidate. Claim C3 as stated makes
  every id of \<open>previousInside - currentInside\<close> an exit; the loop only visits the
  candidates, so here place 9 gets no \<open>exited\<close>.
\<close>

theorem exited_not_set_difference_counterexample:
  "getFamilyPlaces healthyStorage 4 = Inr [home, cabin]
   \<and> previousInside staleWorld 4 = {9}
   \<and> currentInside 0 0 [home, cabin] = {7}
   \<and> placesSent Exited (fst (checkGeofenceTransitions healthyStorage 1000 4 0 0 staleWorld)) = []
   \<and> p_id ` set (placesSent Exited (fst (checkGeofenceTransitions healthyStorage 1000 4 0 0 staleWorld)))
       \<noteq> previousInside staleWorld 4 - currentInside 0 0 [home, cabin]"
proof -
  have prev: "previousInside staleWorld 4 = {9}"
    by (simp add: previousInside_def staleWorld_def)
  have sent: "fst (checkGeofenceTransitions healthyStorage 1000 4 0 0 staleWorld) = [(home, Entered)]"
    by (simp add: sent_of_check [of healthyStorage 4 "[home, cabin]"] prev transition_home_at_home transition_cabin_at_home)
  show ?thesis
    by (simp add: prev sent currentInside_at_home placesSent_def)
qed

text \<open>
  Claim C3, amended: for a candidate list with pairwise different ids, one check sends
  \<open>entered\<close> for exactly the ids of \<open>currentInside - previousInside\<close>, sends \<open>exited\<close>
  for exactly the ids of \<open>previousInside - currentInside\<close> that belong to a candidate
  place, and replaces the stored set of the user by \<open>currentInside\<close>; with an empty
  candidate list it sends nothing and leaves the state as it was.
\<close>

theorem geofence_check_transitions:
  assumes "getFamilyPlaces st userId = Inr ps" and "distinct (map p_id ps)"
  shows "(ps \<noteq> [] \<longrightarrow>
            p_id ` set (placesSent Entered (fst (checkGeofenceTransitions st now userId lat lon w)))
              = currentInside lat lon ps - previousInside w userId
          \<and> p_id ` set (placesSent Exited (fst (checkGeofenceTransitions st now userId lat lon w)))
              = (previousInside w userId - currentInside lat lon ps) \<inter> p_id ` set ps
          \<and> userGeofenceStates (snd (checkGeofenceTransitions st now userId lat lon w))
              = (userGeofenceStates w)(toString userId \<mapsto> currentInside lat lon ps))
       \<and> (ps = [] \<longrightarrow> checkGeofenceTransitions st now userId lat lon w = ([], w))"
proof (cases "ps = []")
  case True
  with assms(1) show ?thesis
    by (simp add: checkGeofenceTransitions_skip)
next
  case False
  from checkGeofenceTransitions_result [OF assms(1) False, of now lat lon w] obtain w' where
    r: "checkGeofenceTransitions st now userId lat lon w =
       (concat (map (transitionOf lat lon (previousInside w userId)) ps),
        w'\<lparr>userGeofenceStates := (userGeofenceStates w)(toString userId \<mapsto> currentInside lat lon ps)\<rparr>)"
    by blast
  show ?thesis
    using False by (simp add: r entered_ids exited_ids [OF assms(2)])
qed

text \<open>Alice moves from the Cabin to Home in one step: entered Home, exited Cabin.\<close>

theorem geofence_check_transitions_witness:
  "getFamilyPlaces healthyStorage 4 = Inr [home, cabin]
   \<and> distinct (map p_id [home, cabin])
   \<and> p_id ` set (placesSent Entered (fst (checkGeofenceTransitions healthyStorage 1000 4 0 0 atCabinWorld))) = {7}
   \<and> p_id ` set (placesSent Exited (fst (checkGeofenceTransitions healthyStorage 1000 4 0 0 atCabinWorld))) = {8}
   \<and> userGeofenceStates (snd (checkGeofenceTransitions healthyStorage 1000 4 0 0 atCabinWorld)) (toString 4)
       = Some {7}"
proof -
  have h1: "getFamilyPlaces healthyStorage 4 = Inr [home, cabin]" by simp
  have h2: "distinct (map p_id [home, cabin])" by (simp add: home_def cabin_def)
  have prev: "previousInside atCabinWorld 4 = {8}"
    by (simp add: previousInside_def atCabinWorld_def)
  have ids: "p_id home = 7" "p_id cabin = 8" by (simp_all add: home_def cabin_def)
  from geofence_check_transitions [OF h1 h2, of 1000 0 0 atCabinWorld] h1 h2 show ?thesis
    by (simp add: prev currentInside_at_home ids)
qed


section \<open>Geofence fan-out and broadcast\<close>

lemma notifyFamilyMembers_healthy:
  assumes "\<forall>n. \<not> createNotificationFails st n"
  shows "notifyFamilyMembers st u p a m fs w =
         (Inr (), w\<lparr>notifications := notifications w @ map (familyNotification u p a m) fs\<rparr>)"
proof (induction fs arbitrary: w)
  case Nil
  show ?case by simp
next
  case (Cons f fs)
  show ?case
    using assms by (simp add: createNotification_def Cons.IH)
qed

text \<open>
  Claim C5: when a mover U with exactly one accepted family member F enters a place
  named Home (and the storage does not throw), exactly two notification rows are
  created: one for F with type \<open>geofence_entered\<close>, title \<open>Location Alert\<close> and
  message "<name of U> has entered Home", and one for U with message "You entered
  Home". The name of U is the first name if present (and not empty), else the email.
\<close>

theorem geofence_entered_two_notifications:
  assumes "getUser st U = Inr (Some user)"
    and "getFamilyMembers st U = Inr [F]"
    and "\<forall>n. \<not> createNotificationFails st n"
    and "p_name place = ''Home''"
  shows "notifications (sendGeofenceNotification st now U place Entered w) =
           notifications w @
           [\<lparr>n_userId = u_id F, n_type = ''geofence_entered'', n_title = ''Location Alert'',
             n_message = firstNameOrEmail user @ '' has entered Home'',
             n_data = [(''triggeredByUserId'', JNum U), (''placeId'', JNum (p_id place)),
                       (''placeName'', JStr ''Home''), (''action'', JStr ''entered'')],
             n_isRead = False\<rparr>,
            \<lparr>n_userId = U, n_type = ''geofence_entered'', n_title = ''Location Alert'',
             n_message = ''You entered Home'',
             n_data = [(''placeId'', JNum (p_id place)), (''placeName'', JStr ''Home''),
                       (''action'', JStr ''entered'')],
             n_isRead = False\<rparr>]
       \<and> (\<forall>f. u_firstName user = Some f \<and> f \<noteq> [] \<longrightarrow> firstNameOrEmail user = f)
       \<and> (u_firstName user = None \<or> u_firstName user = Some [] \<longrightarrow> firstNameOrEmail user = u_email user)"
proof -
  have n: "notifications (sendGeofenceNotification st now U place Entered w) =
           notifications w @
           [familyNotification U place Entered
              (firstNameOrEmail user @ '' has '' @ actionString Entered @ '' '' @ p_name place) F,
            selfNotification U place Entered]"
    using assms(1,2,3)
    by (simp add: sendGeofenceNotification_def sendGeofenceNotificationBody_def
        notifyFamilyMembers_healthy createNotification_def broadcastNotification_def Let_def)
  show ?thesis
    unfolding n using assms(4)
    by (auto simp: familyNotification_def selfNotification_def actionString_def firstNameOrEmail_def)
qed

text \<open>Alice, whose only family member is Bob, enters Home.\<close>

theorem geofence_entered_two_notifications_witness:
  "getUser healthyStorage 4 = Inr (Some alice)
   \<and> getFamilyMembers healthyStorage 4 = Inr [bob]
   \<and> (\<forall>n. \<not> createNotificationFails healthyStorage n)
   \<and> p_name home = ''Home''
   \<and> map (\<lambda>n. (n_userId n, n_type n, n_message n))
        (notifications (sendGeofenceNotification healthyStorage 1000 4 home Entered emptyWorld))
     = [(5, ''geofence_entered'', ''Alice has entered Home''),
        (4, ''geofence_entered'', ''You entered Home'')]"
proof -
  have h1: "getUser healthyStorage 4 = Inr (Some alice)" by (simp add: healthyStorage_def)
  have h2: "getFamilyMembers healthyStorage 4 = Inr [bob]" by (simp add: healthyStorage_def)
  have h3: "\<forall>n. \<not> createNotificationFails healthyStorage n" by (simp add: healthyStorage_def)
  have h4: "p_name home = ''Home''" by (simp add: home_def)
  have e: "notifications emptyWorld = []" by (simp add: emptyWorld_def)
  have a: "firstNameOrEmail alice = ''Alice''" by (simp add: firstNameOrEmail_def alice_def)
  have b: "u_id bob = 5" by (simp add: bob_def)
  from geofence_entered_two_notifications [OF h1 h2 h3 h4, of 1000 emptyWorld] h1 h2 h3 h4
  show ?thesis
    by (simp add: e a b)
qed

text \<open>
  Claim C2 says that a failing insert for one recipient does not prevent the rows of
  the other recipients, the mover's own row and the broadcast. In
  \<open>sendGeofenceNotification\<close> one \<open>try\<close> encloses the whole fan-out: when the insert
  for Bob throws, Carol gets no row, Alice gets no row and no channel receives the
  alert, although the inserts for Carol and Alice would succeed. The loop of the
  movement notifications, with a \<open>try\<close> per recipient, still reaches Carol.
\<close>

theorem geofence_fanout_stops_at_first_failure:
  "getFamilyMembers flakyStorage 4 = Inr [bob, carol]
   \<and> createNotificationFails flakyStorage
        (familyNotification 4 home Entered ''Alice has entered Home'' bob)
   \<and> \<not> createNotificationFails flakyStorage
        (familyNotification 4 home Entered ''Alice has entered Home'' carol)
   \<and> \<not> createNotificationFails flakyStorage (selfNotification 4 home Entered)
   \<and> sendGeofenceNotification flakyStorage 1000 4 home Entered connectedWorld = connectedWorld
   \<and> map n_userId (notifications
        (movedLoop flakyStorage 1000 ''Alice'' pingLocation 4 [bob, carol] connectedWorld)) = [6]"
  by (simp add: flakyStorage_def healthyStorage_def connectedWorld_def emptyWorld_def
      sendGeofenceNotification_def sendGeofenceNotificationBody_def createNotification_def
      familyNotification_def selfNotification_def movedNotification_def broadcastNotification_def
      firstNameOrEmail_def actionString_def alice_def bob_def carol_def home_def Let_def)

lemma broadcastToClients_eq:
  "broadcastToClients alert cs =
     map (\<lambda>(userId, client). (ch_id client, objectSpread [(''type'', JStr ''geofence'')] alert))
       (filter (\<lambda>(userId, client). ch_readyState client = OPEN) cs)"
  by (induction cs) (auto simp: Let_def)

text \<open>
  Claim C8: the geofence alert broadcast hands the message to every registered channel
  that is open, whoever its user is; the family of the mover plays no role.
\<close>

theorem broadcast_reaches_every_open_channel:
  "delivered (broadcastNotification alert w) =
     delivered w @
     map (\<lambda>(userId, client). (ch_id client, objectSpread [(''type'', JStr ''geofence'')] alert))
       (filter (\<lambda>(userId, client). ch_readyState client = OPEN) (clients w))
   \<and> (\<forall>userId client. (userId, client) \<in> set (clients w) \<and> ch_readyState client = OPEN \<longrightarrow>
         (ch_id client, objectSpread [(''type'', JStr ''geofence'')] alert)
           \<in> set (delivered (broadcastNotification alert w)))"
  by (force simp: broadcastNotification_def broadcastToClients_eq)


text \<open>The open channel of user 9, who is not in Alice's family, receives the alert.\<close>

theorem broadcast_reaches_every_open_channel_witness:
  "(''9'', \<lparr>ch_id = 3, ch_readyState = OPEN\<rparr>) \<in> set (clients connectedWorld)
   \<and> ch_readyState \<lparr>ch_id = 3, ch_readyState = OPEN\<rparr> = OPEN
   \<and> (3, homeAlert) \<in> set (delivered (broadcastNotification homeAlert connectedWorld))
   \<and> map fst (delivered (broadcastNotification homeAlert connectedWorld)) = [1, 3]"
proof -
  have m: "(''9'', \<lparr>ch_id = 3, ch_readyState = OPEN\<rparr>) \<in> set (clients connectedWorld)"
    by (simp add: connectedWorld_def)
  have s: "objectSpread [(''type'', JStr ''geofence'')] homeAlert = homeAlert"
    by (simp add: objectSpread_def homeAlert_def)
  have d: "delivered connectedWorld = []" by (simp add: connectedWorld_def emptyWorld_def)
  have c: "clients connectedWorld = [(''5'', \<lparr>ch_id = 1, ch_readyState = OPEN\<rparr>),
                            (''6'', \<lparr>ch_id = 2, ch_readyState = CLOSED\<rparr>),
                            (''9'', \<lparr>ch_id = 3, ch_readyState = OPEN\<rparr>)]"
    by (simp add: connectedWorld_def)
  from broadcast_reaches_every_open_channel [of homeAlert connectedWorld] m show ?thesis
    by (simp add: s d c)
qed


section \<open>Facts about the movement notification throttle\<close>

lemma movedLoop_notifications:
  "notifications (movedLoop st now un loc u fs w) =
     notifications w @
     map (movedNotification un loc u)
       (filter (\<lambda>m. \<not> createNotificationFails st (movedNotification un loc u m)) fs)"
proof (induction fs arbitrary: w)
  case Nil
  show ?case by simp
next
  case (Cons f fs)
  show ?case
    by (simp add: Cons.IH createNotification_def broadcastNotification_def Let_def)
qed

lemma movedLoop_appended: "appended (\<lambda>n. True) w (movedLoop st now un loc u fs w)"
proof (induction fs arbitrary: w)
  case Nil
  show ?case by (simp add: appended_refl)
next
  case (Cons f fs)
  let ?n = "movedNotification un loc u f"
  let ?w1 = "snd (createNotification st ?n w)"
  have a1: "appended (\<lambda>n. True) w ?w1" by (rule appended_createNotification) simp
  show ?case
  proof (cases "createNotificationFails st ?n \<or> \<not> broadcastHookInstalled ?w1")
    case True
    then have "movedLoop st now un loc u (f # fs) w = movedLoop st now un loc u fs ?w1"
      by (auto simp: createNotification_def Let_def)
    with appended_trans [OF a1 Cons.IH [of ?w1]] show ?thesis by simp
  next
    case False
    let ?w2 = "broadcastNotification
                    [(''type'', JStr ''notification''),
                     (''userId'', JNum (u_id f)),
                     (''notificationType'', JStr ''location''),
                     (''message'', JStr (un @ '' updated their location'')),
                     (''timestamp'', JTime now)] ?w1"
    from False have "movedLoop st now un loc u (f # fs) w = movedLoop st now un loc u fs ?w2"
      by (auto simp: createNotification_def Let_def)
    moreover have "appended (\<lambda>n. True) w ?w2"
      by (rule appended_trans [OF a1 appended_broadcastNotification])
    ultimately show ?thesis
      using appended_trans [OF _ Cons.IH [of ?w2]] by simp
  qed
qed

lemma movedNotificationStep_skip:
  "\<not> shouldCreateNotification w now u \<or> fs = [] \<Longrightarrow> movedNotificationStep st now un loc u fs w = w"
  by (auto simp: movedNotificationStep_def)

lemma movedNotificationStep_pass:
  assumes "shouldCreateNotification w now u" and "fs \<noteq> []"
  shows "notifications (movedNotificationStep st now un loc u fs w) =
           notifications w @
           map (movedNotification un loc u)
             (filter (\<lambda>m. \<not> createNotificationFails st (movedNotification un loc u m)) fs)"
    and "lastLocationNotification (movedNotificationStep st now un loc u fs w) =
           Some ((case lastLocationNotification w of None \<Rightarrow> Map.empty | Some m \<Rightarrow> m)(u \<mapsto> now))"
    and "userGeofenceStates (movedNotificationStep st now un loc u fs w) = userGeofenceStates w"
proof -
  let ?w1 = "w\<lparr>lastLocationNotification :=
               Some ((case lastLocationNotification w of None \<Rightarrow> Map.empty | Some m \<Rightarrow> m)(u \<mapsto> now))\<rparr>"
  have eq: "movedNotificationStep st now un loc u fs w = movedLoop st now un loc u fs ?w1"
    using assms by (simp add: movedNotificationStep_def Let_def)
  show "notifications (movedNotificationStep st now un loc u fs w) =
           notifications w @
           map (movedNotification un loc u)
             (filter (\<lambda>m. \<not> createNotificationFails st (movedNotification un loc u m)) fs)"
    by (simp add: eq movedLoop_notifications)
  show "lastLocationNotification (movedNotificationStep st now un loc u fs w) =
           Some ((case lastLocationNotification w of None \<Rightarrow> Map.empty | Some m \<Rightarrow> m)(u \<mapsto> now))"
    by (simp add: eq appended_fields(2) [OF movedLoop_appended])
  show "userGeofenceStates (movedNotificationStep st now un loc u fs w) = userGeofenceStates w"
    by (simp add: eq appended_fields(1) [OF movedLoop_appended])
qed

lemma userGeofenceStates_movedNotificationStep:
  "userGeofenceStates (movedNotificationStep st now un loc u fs w) = userGeofenceStates w"
  by (cases "shouldCreateNotification w now u \<and> fs \<noteq> []")
     (auto simp: movedNotificationStep_skip movedNotificationStep_pass(3))

lemma locationUpdateLoop_appended: "appended P w (locationUpdateLoop u loc ms w)"
proof (induction ms arbitrary: w)
  case Nil
  show ?case by (simp add: appended_refl)
next
  case (Cons m ms)
  let ?msg = "[(''type'', JStr ''locationUpdate''), (''userId'', JStr (toString u)),
               (''location'', JLocation loc)]"
  show ?case
  proof (cases "\<exists>client. map_of (clients w) (toString (u_id m)) = Some client \<and> ch_readyState client = OPEN")
    case True
    then obtain client where c: "map_of (clients w) (toString (u_id m)) = Some client"
      "ch_readyState client = OPEN" by blast
    let ?w1 = "w\<lparr>delivered := delivered w @ [(ch_id client, ?msg)]\<rparr>"
    have "appended P w ?w1"
      by (rule appendedI [where ns = "[]" and ds = "[(ch_id client, ?msg)]"]) simp_all
    moreover have "locationUpdateLoop u loc (m # ms) w = locationUpdateLoop u loc ms ?w1"
      using c by (simp add: Let_def)
    ultimately show ?thesis
      using appended_trans [OF _ Cons.IH [of ?w1]] by simp
  next
    case False
    then have "locationUpdateLoop u loc (m # ms) w = locationUpdateLoop u loc ms w"
      by (auto simp: Let_def split: option.splits)
    with Cons.IH [of w] show ?thesis by simp
  qed
qed

lemma broadcastLocationUpdate_appended: "appended P w (broadcastLocationUpdate st u loc w)"
  by (cases "getFamilyMembers st u")
     (simp_all add: broadcastLocationUpdate_def appended_refl locationUpdateLoop_appended)


lemma countMoved_appended:
  assumes "appended geofenceType w w'"
  shows "countMoved r w' = countMoved r w"
proof -
  from assms obtain ns ds where
    w': "w' = w\<lparr>notifications := notifications w @ ns, delivered := delivered w @ ds\<rparr>"
    and p: "list_all geofenceType ns"
    unfolding appended_def by blast
  from p have "filter (\<lambda>n. n_type n = ''location'' \<and> n_userId n = r) ns = []"
    by (induction ns) (simp_all add: geofenceType_def)
  then show ?thesis by (simp add: w' countMoved_def)
qed

lemma countMoved_delivered:
  assumes "appended (\<lambda>n. False) w w'"
  shows "countMoved r w' = countMoved r w"
  by (rule countMoved_appended [OF appended_mono [OF assms]]) simp

lemma check_throttle_view:
  "lastLocationNotification (snd (checkGeofenceTransitions st now u lat lon w)) = lastLocationNotification w
   \<and> countMoved r (snd (checkGeofenceTransitions st now u lat lon w)) = countMoved r w"
proof (cases "getFamilyPlaces st u")
  case (Inl e)
  then show ?thesis by (simp add: checkGeofenceTransitions_skip)
next
  case (Inr ps)
  show ?thesis
  proof (cases "ps = []")
    case True
    with Inr show ?thesis by (simp add: checkGeofenceTransitions_skip)
  next
    case False
    from checkGeofenceTransitions_result [OF Inr False, of now lat lon w] obtain w' where
      r: "checkGeofenceTransitions st now u lat lon w =
            (concat (map (transitionOf lat lon (previousInside w u)) ps),
             w'\<lparr>userGeofenceStates := (userGeofenceStates w)(toString u \<mapsto> currentInside lat lon ps)\<rparr>)"
      and a: "appended geofenceType w w'" by blast
    have "countMoved r (w'\<lparr>userGeofenceStates := (userGeofenceStates w)(toString u \<mapsto> currentInside lat lon ps)\<rparr>)
          = countMoved r w'"
      by (simp add: countMoved_def)
    with countMoved_appended [OF a] appended_fields(2) [OF a] show ?thesis
      by (simp add: r)
  qed
qed

lemma saveLocation_throttle_view:
  "lastLocationNotification (snd (saveLocation st now d w)) = lastLocationNotification w
   \<and> countMoved r (snd (saveLocation st now d w)) = countMoved r w
   \<and> userGeofenceStates (snd (saveLocation st now d w)) = userGeofenceStates w"
  by (simp add: saveLocation_def countMoved_def Let_def)

lemma shouldCreateNotification_cong:
  "lastLocationNotification w1 = lastLocationNotification w \<Longrightarrow>
   shouldCreateNotification w1 now u = shouldCreateNotification w now u"
  by (simp add: shouldCreateNotification_def lastNotificationTime_def)

lemma lastNotificationTime_cong:
  "lastLocationNotification w1 = lastLocationNotification w \<Longrightarrow>
   lastNotificationTime w1 u = lastNotificationTime w u"
  by (simp add: lastNotificationTime_def)

text \<open>What one ping does to the throttle entry and to the movement notifications of a recipient.\<close>

lemma postLocations_throttle_view:
  "(lastLocationNotification (snd (postLocations st now u body w)) = lastLocationNotification w
      \<and> countMoved r (snd (postLocations st now u body w)) = countMoved r w)
   \<or> (\<exists>loc un fs w1.
         getFamilyMembers st u = Inr fs
         \<and> lastLocationNotification w1 = lastLocationNotification w
         \<and> countMoved r w1 = countMoved r w
         \<and> lastLocationNotification (snd (postLocations st now u body w))
             = lastLocationNotification (movedNotificationStep st now un loc u fs w1)
         \<and> countMoved r (snd (postLocations st now u body w))
             = countMoved r (movedNotificationStep st now un loc u fs w1))"
proof (cases "parseInsertLocation u body")
  case (Inl e)
  then show ?thesis by (simp add: postLocations_def)
next
  case d: (Inr d)
  obtain res w1 where s: "saveLocation st now d w = (res, w1)" by (cases "saveLocation st now d w")
  have v1: "lastLocationNotification w1 = lastLocationNotification w" "countMoved r w1 = countMoved r w"
    using saveLocation_throttle_view [of st now d w r] s by simp_all
  show ?thesis
  proof (cases res)
    case (Inl e)
    with d s v1 show ?thesis by (simp add: postLocations_def)
  next
    case loc: (Inr loc)
    show ?thesis
    proof (cases "getUser st u")
      case (Inl e)
      with d s loc v1 show ?thesis by (simp add: postLocations_def)
    next
      case uo: (Inr uo)
      show ?thesis
      proof (cases "getFamilyMembers st u")
        case (Inl e)
        with d s loc uo v1 show ?thesis by (simp add: postLocations_def)
      next
        case fs: (Inr fs)
        let ?w2 = "movedNotificationStep st now (userNameOrDefault uo) loc u fs w1"
        let ?w3 = "snd (checkGeofenceTransitions st now u (l_latitude loc) (l_longitude loc) ?w2)"
        let ?w4 = "broadcastLocationUpdate st u loc ?w3"
        have post: "snd (postLocations st now u body w) = ?w4"
          using d s loc uo fs by (simp add: postLocations_def Let_def)
        have a4: "appended (\<lambda>n. False) ?w3 ?w4" by (rule broadcastLocationUpdate_appended)
        have "lastLocationNotification ?w4 = lastLocationNotification ?w2"
          using appended_fields(2) [OF a4] check_throttle_view [of st now u _ _ ?w2 r] by simp
        moreover have "countMoved r ?w4 = countMoved r ?w2"
          using countMoved_delivered [OF a4] check_throttle_view [of st now u _ _ ?w2 r] by simp
        ultimately show ?thesis
          using fs v1 post by auto
      qed
    qed
  qed
qed

lemma filter_distinct_le_one:
  "distinct (map f xs) \<Longrightarrow> length (filter (\<lambda>x. f x = r) xs) \<le> 1"
proof (induction xs)
  case Nil
  show ?case by simp
next
  case (Cons x xs)
  show ?case
  proof (cases "f x = r")
    case True
    with Cons.prems have "\<forall>y \<in> set xs. f y \<noteq> r"
      by (auto simp: image_iff)
    then have "filter (\<lambda>x. f x = r) xs = []"
      by (simp add: filter_empty_conv)
    with True show ?thesis by simp
  next
    case False
    with Cons show ?thesis by simp
  qed
qed

lemma countMoved_step_le:
  "countMoved r (movedNotificationStep st now un loc u fs w)
     \<le> countMoved r w + length (filter (\<lambda>m. u_id m = r) fs)"
proof (cases "shouldCreateNotification w now u \<and> fs \<noteq> []")
  case False
  then show ?thesis by (auto simp: movedNotificationStep_skip)
next
  case True
  let ?ok = "\<lambda>m. \<not> createNotificationFails st (movedNotification un loc u m)"
  have "filter (\<lambda>m. u_id m = r) (filter ?ok fs) = filter ?ok (filter (\<lambda>m. u_id m = r) fs)"
    by (simp add: conj_commute)
  then have le: "length (filter (\<lambda>m. u_id m = r) (filter ?ok fs)) \<le> length (filter (\<lambda>m. u_id m = r) fs)"
    by (simp only: length_filter_le)
  have "filter (\<lambda>n. n_type n = ''location'' \<and> n_userId n = r) (map (movedNotification un loc u) (filter ?ok fs))
        = map (movedNotification un loc u) (filter (\<lambda>m. u_id m = r) (filter ?ok fs))"
    by (simp add: filter_map o_def movedNotification_def)
  then have "countMoved r (movedNotificationStep st now un loc u fs w) =
        countMoved r w + length (filter (\<lambda>m. u_id m = r) (filter ?ok fs))"
    using True by (simp add: countMoved_def movedNotificationStep_pass(1))
  with le show ?thesis by simp
qed

lemma lastNotificationTime_after_pass:
  assumes "shouldCreateNotification w now u" and "fs \<noteq> []"
  shows "lastNotificationTime (movedNotificationStep st now un loc u fs w) u = now"
  by (simp add: lastNotificationTime_def movedNotificationStep_pass(2) [OF assms])


lemma postLocations_no_pass:
  assumes no: "\<not> shouldCreateNotification w now u"
  shows "lastLocationNotification (snd (postLocations st now u body w)) = lastLocationNotification w"
    and "countMoved r (snd (postLocations st now u body w)) = countMoved r w"
proof -
  let ?w' = "snd (postLocations st now u body w)"
  consider (same) "lastLocationNotification ?w' = lastLocationNotification w" "countMoved r ?w' = countMoved r w"
    | (step) loc un fs w1 where
        "lastLocationNotification w1 = lastLocationNotification w" "countMoved r w1 = countMoved r w"
        "lastLocationNotification ?w' = lastLocationNotification (movedNotificationStep st now un loc u fs w1)"
        "countMoved r ?w' = countMoved r (movedNotificationStep st now un loc u fs w1)"
    using postLocations_throttle_view [of st now u body w r] by blast
  then have "lastLocationNotification ?w' = lastLocationNotification w \<and> countMoved r ?w' = countMoved r w"
  proof cases
    case same
    then show ?thesis by simp
  next
    case step
    from no shouldCreateNotification_cong [OF step(1), of now u]
    have "\<not> shouldCreateNotification w1 now u" by simp
    then have "movedNotificationStep st now un loc u fs w1 = w1"
      by (simp add: movedNotificationStep_skip)
    with step show ?thesis by simp
  qed
  then show "lastLocationNotification ?w' = lastLocationNotification w"
    and "countMoved r ?w' = countMoved r w" by simp_all
qed

lemma pingTimes_Cons: "pingTimes ((st, now, body) # pings) = now # pingTimes pings"
  by (simp add: pingTimes_def)

lemma runPings_throttled:
  assumes "\<forall>t \<in> set (pingTimes pings). t - lastNotificationTime w u \<le> 5 * 60 * 1000"
  shows "countMoved r (runPings u pings w) = countMoved r w"
  using assms
proof (induction pings arbitrary: w)
  case Nil
  show ?case by simp
next
  case (Cons ping pings)
  obtain st now body where ping: "ping = (st, now, body)" by (cases ping) auto
  let ?w' = "snd (postLocations st now u body w)"
  have now: "now - lastNotificationTime w u \<le> 5 * 60 * 1000"
    and rest: "\<forall>t \<in> set (pingTimes pings). t - lastNotificationTime w u \<le> 5 * 60 * 1000"
    using Cons.prems unfolding ping pingTimes_Cons by simp_all
  from now have no: "\<not> shouldCreateNotification w now u"
    by (simp add: shouldCreateNotification_def)
  note same1 = postLocations_no_pass(1) [OF no, where st = st and body = body]
  note same2 = postLocations_no_pass(2) [OF no, where st = st and body = body and r = r]
  have t: "lastNotificationTime ?w' u = lastNotificationTime w u"
    by (rule lastNotificationTime_cong [OF same1])
  have "\<forall>t \<in> set (pingTimes pings). t - lastNotificationTime ?w' u \<le> 5 * 60 * 1000"
    unfolding t by (rule rest)
  then have "countMoved r (runPings u pings ?w') = countMoved r ?w'"
    by (rule Cons.IH)
  then show ?case
    unfolding ping by (simp add: same2)
qed


lemma runPings_at_most_one:
  assumes "\<forall>t \<in> set (pingTimes pings). \<forall>t' \<in> set (pingTimes pings). t' - t \<le> 5 * 60 * 1000"
  shows "countMoved r (runPings u pings w) \<le> countMoved r w + maxListed u r pings"
  using assms
proof (induction pings arbitrary: w)
  case Nil
  show ?case by simp
next
  case (Cons ping pings)
  obtain st now body where ping: "ping = (st, now, body)" by (cases ping) auto
  let ?w' = "snd (postLocations st now u body w)"
  have run: "runPings u (ping # pings) w = runPings u pings ?w'" by (simp add: ping)
  have mx: "maxListed u r (ping # pings) = max (listedTimes u r (st, now, body)) (maxListed u r pings)"
    by (simp add: ping)
  have window: "\<forall>t \<in> set (pingTimes pings). \<forall>t' \<in> set (pingTimes pings). t' - t \<le> 5 * 60 * 1000"
    and after: "\<forall>t \<in> set (pingTimes pings). t - now \<le> 5 * 60 * 1000"
    using Cons.prems(1) unfolding ping pingTimes_Cons by simp_all
  note ih = Cons.IH [OF window, of ?w']
  consider (same) "countMoved r ?w' = countMoved r w"
    | (step) loc un fs w1 where
        "getFamilyMembers st u = Inr fs"
        "lastLocationNotification w1 = lastLocationNotification w" "countMoved r w1 = countMoved r w"
        "lastLocationNotification ?w' = lastLocationNotification (movedNotificationStep st now un loc u fs w1)"
        "countMoved r ?w' = countMoved r (movedNotificationStep st now un loc u fs w1)"
    using postLocations_throttle_view [of st now u body w r] by blast
  then show ?case
  proof cases
    case same
    with ih show ?thesis unfolding run mx by simp
  next
    case step
    from step(1) have l: "listedTimes u r (st, now, body) = length (filter (\<lambda>m. u_id m = r) fs)"
      by (simp add: listedTimes_def)
    show ?thesis
    proof (cases "shouldCreateNotification w1 now u \<and> fs \<noteq> []")
      case False
      then have "movedNotificationStep st now un loc u fs w1 = w1"
        by (auto simp: movedNotificationStep_skip)
      with step have "countMoved r ?w' = countMoved r w" by simp
      with ih show ?thesis unfolding run mx by simp
    next
      case True
      then have "lastNotificationTime (movedNotificationStep st now un loc u fs w1) u = now"
        by (simp add: lastNotificationTime_after_pass)
      with lastNotificationTime_cong [OF step(4), of u] have t: "lastNotificationTime ?w' u = now"
        by simp
      have "\<forall>t \<in> set (pingTimes pings). t - lastNotificationTime ?w' u \<le> 5 * 60 * 1000"
        unfolding t by (rule after)
      then have "countMoved r (runPings u pings ?w') = countMoved r ?w'"
        by (rule runPings_throttled)
      moreover have "countMoved r ?w' \<le> countMoved r w + listedTimes u r (st, now, body)"
        using countMoved_step_le [of r st now un loc u fs w1] step(3,5) l by simp
      ultimately show ?thesis unfolding run mx by simp
    qed
  qed
qed

lemma maxListed_distinct:
  "list_all (familyIdsDistinct u) pings \<Longrightarrow> maxListed u r pings \<le> 1"
proof (induction pings)
  case Nil
  show ?case by simp
next
  case (Cons ping pings)
  then have d: "familyIdsDistinct u ping" and rest: "maxListed u r pings \<le> 1" by simp_all
  have "listedTimes u r ping \<le> 1"
  proof (cases "getFamilyMembers (fst ping) u")
    case (Inl e)
    then show ?thesis by (simp add: listedTimes_def)
  next
    case (Inr fs)
    with d have "distinct (map u_id fs)" by (simp add: familyIdsDistinct_def)
    then have "length (filter (\<lambda>m. u_id m = r) fs) \<le> 1" by (rule filter_distinct_le_one)
    with Inr show ?thesis by (simp add: listedTimes_def)
  qed
  with rest show ?case by simp
qed

text \<open>The movement rows and the throttle entry after one run of the handler.\<close>

lemma movedRows_appended:
  assumes "appended geofenceType w w'"
  shows "movedRows w' = movedRows w"
proof -
  from assms obtain ns ds where
    w': "w' = w\<lparr>notifications := notifications w @ ns, delivered := delivered w @ ds\<rparr>"
    and p: "list_all geofenceType ns"
    unfolding appended_def by blast
  from p have "filter (\<lambda>n. n_type n = ''location'') ns = []"
    by (induction ns) (simp_all add: geofenceType_def)
  then show ?thesis by (simp add: w' movedRows_def)
qed

lemma movedRows_check:
  "movedRows (snd (checkGeofenceTransitions st now u lat lon w)) = movedRows w"
proof (cases "getFamilyPlaces st u")
  case (Inl e)
  then show ?thesis by (simp add: checkGeofenceTransitions_skip)
next
  case (Inr ps)
  show ?thesis
  proof (cases "ps = []")
    case True
    with Inr show ?thesis by (simp add: checkGeofenceTransitions_skip)
  next
    case False
    from checkGeofenceTransitions_result [OF Inr False, of now lat lon w] obtain w' where
      r: "checkGeofenceTransitions st now u lat lon w =
            (concat (map (transitionOf lat lon (previousInside w u)) ps),
             w'\<lparr>userGeofenceStates := (userGeofenceStates w)(toString u \<mapsto> currentInside lat lon ps)\<rparr>)"
      and a: "appended geofenceType w w'" by blast
    have "movedRows (w'\<lparr>userGeofenceStates := (userGeofenceStates w)(toString u \<mapsto> currentInside lat lon ps)\<rparr>)
          = movedRows w'"
      by (simp add: movedRows_def)
    with movedRows_appended [OF a] show ?thesis by (simp add: r)
  qed
qed

lemma movedRows_broadcastLocationUpdate:
  "movedRows (broadcastLocationUpdate st u loc w) = movedRows w"
  by (rule movedRows_appended
      [OF appended_mono [OF broadcastLocationUpdate_appended [where P = "\<lambda>n. False"]]]) simp

lemma postLocations_success:
  assumes "parseInsertLocation u body = Inr d"
    and "saveLocation st now d w = (Inr loc, w1)"
    and "getUser st u = Inr uo"
    and "getFamilyMembers st u = Inr fs"
  shows "fst (postLocations st now u body w) = Json loc"
    and "movedRows (snd (postLocations st now u body w))
           = movedRows (movedNotificationStep st now (userNameOrDefault uo) loc u fs w1)"
    and "lastLocationNotification (snd (postLocations st now u body w))
           = lastLocationNotification (movedNotificationStep st now (userNameOrDefault uo) loc u fs w1)"
    and "notifications w1 = notifications w"
    and "lastLocationNotification w1 = lastLocationNotification w"
proof -
  let ?w2 = "movedNotificationStep st now (userNameOrDefault uo) loc u fs w1"
  let ?w3 = "snd (checkGeofenceTransitions st now u (l_latitude loc) (l_longitude loc) ?w2)"
  let ?w4 = "broadcastLocationUpdate st u loc ?w3"
  have post: "postLocations st now u body w = (Json loc, ?w4)"
    using assms by (simp add: postLocations_def Let_def)
  show "fst (postLocations st now u body w) = Json loc" by (simp add: post)
  show "movedRows (snd (postLocations st now u body w)) = movedRows ?w2"
    by (simp add: post movedRows_broadcastLocationUpdate movedRows_check)
  have "lastLocationNotification ?w4 = lastLocationNotification ?w3"
    by (rule appended_fields(2) [OF broadcastLocationUpdate_appended [where P = "\<lambda>n. True"]])
  then show "lastLocationNotification (snd (postLocations st now u body w)) = lastLocationNotification ?w2"
    using check_throttle_view [of st now u "l_latitude loc" "l_longitude loc" ?w2 0]
    by (simp add: post)
  from assms(2) show "notifications w1 = notifications w"
    and "lastLocationNotification w1 = lastLocationNotification w"
    by (auto simp: saveLocation_def Let_def split: if_splits)
qed

lemma movedRows_step_pass:
  assumes "shouldCreateNotification w now u" and "fs \<noteq> []"
  shows "movedRows (movedNotificationStep st now un loc u fs w) =
           movedRows w @
           map (movedNotification un loc u)
             (filter (\<lambda>m. \<not> createNotificationFails st (movedNotification un loc u m)) fs)"
proof -
  have "filter (\<lambda>n. n_type n = ''location'') (map (movedNotification un loc u) xs)
        = map (movedNotification un loc u) xs" for xs
    by (induction xs) (simp_all add: movedNotification_def)
  then show ?thesis
    by (simp add: movedRows_def movedNotificationStep_pass(1) [OF assms])
qed

lemma postLocations_failure:
  assumes "fst (postLocations st now u body w) = Status500 msg"
  shows "notifications (snd (postLocations st now u body w)) = notifications w"
    and "lastLocationNotification (snd (postLocations st now u body w)) = lastLocationNotification w"
proof -
  have "notifications (snd (postLocations st now u body w)) = notifications w
        \<and> lastLocationNotification (snd (postLocations st now u body w)) = lastLocationNotification w"
  proof (cases "parseInsertLocation u body")
    case (Inl e)
    then show ?thesis by (simp add: postLocations_def)
  next
    case d: (Inr d)
    obtain res w1 where s: "saveLocation st now d w = (res, w1)" by (cases "saveLocation st now d w")
    then have v1: "notifications w1 = notifications w"
      "lastLocationNotification w1 = lastLocationNotification w"
      by (auto simp: saveLocation_def Let_def split: if_splits)
    show ?thesis
    proof (cases res)
      case (Inl e)
      with d s v1 show ?thesis by (simp add: postLocations_def)
    next
      case loc: (Inr loc)
      show ?thesis
      proof (cases "getUser st u")
        case (Inl e)
        with d s loc v1 show ?thesis by (simp add: postLocations_def)
      next
        case uo: (Inr uo)
        show ?thesis
        proof (cases "getFamilyMembers st u")
          case (Inl e)
          with d s loc uo v1 show ?thesis by (simp add: postLocations_def)
        next
          case fs: (Inr fs)
          from postLocations_success(1) [OF d _ uo fs, of now w loc w1] s loc assms
          show ?thesis by simp
        qed
      qed
    qed
  qed
  then show "notifications (snd (postLocations st now u body w)) = notifications w"
    and "lastLocationNotification (snd (postLocations st now u body w)) = lastLocationNotification w"
    by simp_all
qed

section \<open>The movement notification throttle\<close>

lemma lastNotificationTime_throttledWorld: "lastNotificationTime throttledWorld 4 = 1000000"
  by (simp add: lastNotificationTime_def throttledWorld_def)

lemma parse_homeBody:
  "parseInsertLocation 4 homeBody =
     Inr \<lparr>il_userId = 4, il_latitude = 0, il_longitude = 0, il_accuracy = None,
          il_address = None, il_type = None\<rparr>"
  by (simp add: parseInsertLocation_def homeBody_def requiredNumber_def nullableNumber_def
      nullableString_def defaultedString_def)

lemma save_homeBody:
  "\<not> saveLocationFails st \<lparr>il_userId = 4, il_latitude = 0, il_longitude = 0, il_accuracy = None,
          il_address = None, il_type = None\<rparr> \<Longrightarrow>
   locations w = [] \<Longrightarrow>
   saveLocation st now \<lparr>il_userId = 4, il_latitude = 0, il_longitude = 0, il_accuracy = None,
          il_address = None, il_type = None\<rparr> w =
     (Inr \<lparr>l_id = Suc 0, l_userId = 4, l_latitude = 0, l_longitude = 0, l_accuracy = None,
            l_address = None, l_type = ''manual'', l_timestamp = Some now\<rparr>,
      w\<lparr>locations := [\<lparr>l_id = Suc 0, l_userId = 4, l_latitude = 0, l_longitude = 0, l_accuracy = None,
            l_address = None, l_type = ''manual'', l_timestamp = Some now\<rparr>]\<rparr>)"
  by (simp add: saveLocation_def Let_def)

text \<open>
  Claim C4 as stated lets a ping pass when exactly 5 minutes have gone by, and promises
  at most one movement notification per family member. The handler compares strictly:
  at 300000 ms after the last notification the ping is saved and nothing is created.
  And it creates one row per entry of the family list: when the storage lists Bob
  twice, a single passing ping gives Bob two rows.
\<close>

theorem moved_throttle_at_five_minutes_counterexample:
  "lastNotificationTime throttledWorld 4 = 1000000
   \<and> 1300000 - lastNotificationTime throttledWorld 4 \<ge> 5 * 60 * 1000
   \<and> getFamilyMembers healthyStorage 4 = Inr [bob]
   \<and> fst (postLocations healthyStorage 1300000 4 homeBody throttledWorld)
       = Json \<lparr>l_id = Suc 0, l_userId = 4, l_latitude = 0, l_longitude = 0, l_accuracy = None,
               l_address = None, l_type = ''manual'', l_timestamp = Some 1300000\<rparr>
   \<and> movedRows (snd (postLocations healthyStorage 1300000 4 homeBody throttledWorld)) = []
   \<and> getFamilyMembers twiceListedStorage 4 = Inr [bob, bob]
   \<and> map n_userId (movedRows (snd (postLocations twiceListedStorage 1300001 4 homeBody throttledWorld)))
       = [5, 5]"
proof -
  let ?d = "\<lparr>il_userId = 4, il_latitude = 0, il_longitude = 0, il_accuracy = None,
          il_address = None, il_type = None\<rparr>"
  have l: "locations throttledWorld = []" "movedRows throttledWorld = []"
    "notifications throttledWorld = []"
    by (simp_all add: throttledWorld_def emptyWorld_def movedRows_def)
  have no: "\<not> shouldCreateNotification throttledWorld 1300000 4"
    by (simp add: shouldCreateNotification_def lastNotificationTime_throttledWorld)
  have yes: "shouldCreateNotification throttledWorld 1300001 4"
    by (simp add: shouldCreateNotification_def lastNotificationTime_throttledWorld)
  have s1: "\<not> saveLocationFails healthyStorage ?d" "\<not> saveLocationFails twiceListedStorage ?d"
    by (simp_all add: healthyStorage_def twiceListedStorage_def)
  have u1: "getUser healthyStorage 4 = Inr (Some alice)" "getUser twiceListedStorage 4 = Inr (Some alice)"
    by (simp_all add: healthyStorage_def twiceListedStorage_def)
  have f1: "getFamilyMembers healthyStorage 4 = Inr [bob]"
    "getFamilyMembers twiceListedStorage 4 = Inr [bob, bob]"
    by (simp_all add: healthyStorage_def twiceListedStorage_def)
  have c: "\<not> createNotificationFails twiceListedStorage x" for x
    by (simp add: healthyStorage_def twiceListedStorage_def)
  note a = postLocations_success [OF parse_homeBody save_homeBody [OF s1(1) l(1)] u1(1) f1(1), of 1300000]
  note b = postLocations_success [OF parse_homeBody save_homeBody [OF s1(2) l(1)] u1(2) f1(2), of 1300001]
  have r1: "movedRows (snd (postLocations healthyStorage 1300000 4 homeBody throttledWorld)) = []"
    using a(2) no shouldCreateNotification_cong [OF a(5), of 1300000 4]
    by (simp add: movedNotificationStep_skip movedRows_def l)
  have y: "shouldCreateNotification
             (throttledWorld\<lparr>locations := [\<lparr>l_id = Suc 0, l_userId = 4, l_latitude = 0, l_longitude = 0,
                l_accuracy = None, l_address = None, l_type = ''manual'', l_timestamp = Some 1300001\<rparr>]\<rparr>)
             1300001 4"
    using yes shouldCreateNotification_cong [OF b(5), of 1300001 4] by simp
  have ne: "[bob, bob] \<noteq> []" by simp
  note sp = movedRows_step_pass [OF y ne, where st = twiceListedStorage]
  have r2: "map n_userId (movedRows (snd (postLocations twiceListedStorage 1300001 4 homeBody throttledWorld)))
       = [5, 5]"
    unfolding b(2) sp
    by (simp add: c movedRows_def l movedNotification_def bob_def)
  show ?thesis
    using a(1) r1 r2 f1 by (simp add: lastNotificationTime_throttledWorld)
qed

text \<open>
  Claim C4, amended: for every ping ingested for a mover (the handler having saved the
  ping and read the user and the family list), movement notifications are created, one
  for each entry of the family list whose insert does not throw, if and only if more
  than 5 minutes have passed since \<open>lastNotified[moverId]\<close> (strictly; a missing record
  counts as time 0) and the family list is not empty, and exactly then
  \<open>lastNotified[moverId]\<close> is set to now; a ping that ends with status 500 creates
  none. Consequently, of the pings of one mover that lie within 5 minutes of each other
  at most one creates movement notifications: a family member gets at most as many as
  the number of times a single ping's family list names them, which is at most one when
  the family lists have no duplicates.
\<close>

theorem moved_notification_throttle:
  "(parseInsertLocation moverId body = Inr d \<and> saveLocation st now d w = (Inr loc, saved)
      \<and> getUser st moverId = Inr uo \<and> getFamilyMembers st moverId = Inr fs \<longrightarrow>
      fst (postLocations st now moverId body w) = Json loc
      \<and> (now - lastNotificationTime w moverId > 5 * 60 * 1000 \<and> fs \<noteq> [] \<longrightarrow>
            movedRows (snd (postLocations st now moverId body w)) =
              movedRows w @
              map (movedNotification (userNameOrDefault uo) loc moverId)
                (filter (\<lambda>m. \<not> createNotificationFails st
                                 (movedNotification (userNameOrDefault uo) loc moverId m)) fs)
            \<and> lastLocationNotification (snd (postLocations st now moverId body w)) =
                Some ((case lastLocationNotification w of None \<Rightarrow> Map.empty | Some m \<Rightarrow> m)
                        (moverId \<mapsto> now)))
      \<and> (\<not> (now - lastNotificationTime w moverId > 5 * 60 * 1000 \<and> fs \<noteq> []) \<longrightarrow>
            movedRows (snd (postLocations st now moverId body w)) = movedRows w
            \<and> lastLocationNotification (snd (postLocations st now moverId body w)) =
                lastLocationNotification w))
   \<and> (fst (postLocations st now moverId body w) = Status500 msg \<longrightarrow>
        movedRows (snd (postLocations st now moverId body w)) = movedRows w
        \<and> lastLocationNotification (snd (postLocations st now moverId body w)) =
            lastLocationNotification w)
   \<and> (lastLocationNotification w = None
        \<or> (\<exists>m. lastLocationNotification w = Some m \<and> m moverId = None) \<longrightarrow>
        lastNotificationTime w moverId = 0)
   \<and> ((\<forall>t \<in> set (pingTimes pings). \<forall>t' \<in> set (pingTimes pings). t' - t \<le> 5 * 60 * 1000) \<longrightarrow>
        countMoved r (runPings moverId pings w) \<le> countMoved r w + maxListed moverId r pings)
   \<and> (list_all (familyIdsDistinct moverId) pings \<longrightarrow> maxListed moverId r pings \<le> 1)"
proof (intro conjI impI)
  assume a: "parseInsertLocation moverId body = Inr d \<and> saveLocation st now d w = (Inr loc, saved)
      \<and> getUser st moverId = Inr uo \<and> getFamilyMembers st moverId = Inr fs"
  then have p: "parseInsertLocation moverId body = Inr d" and s: "saveLocation st now d w = (Inr loc, saved)"
    and u: "getUser st moverId = Inr uo" and f: "getFamilyMembers st moverId = Inr fs" by simp_all
  note post = postLocations_success [OF p s u f]
  show "fst (postLocations st now moverId body w) = Json loc" by (rule post(1))
  have rows1: "movedRows saved = movedRows w" by (simp add: movedRows_def post(4))
  have sc: "shouldCreateNotification saved now moverId = shouldCreateNotification w now moverId"
    by (rule shouldCreateNotification_cong [OF post(5)])
  {
    assume "now - lastNotificationTime w moverId > 5 * 60 * 1000 \<and> fs \<noteq> []"
    then have "shouldCreateNotification w now moverId" and ne: "fs \<noteq> []"
      by (simp_all add: shouldCreateNotification_def)
    then have y: "shouldCreateNotification saved now moverId" by (simp only: sc)
    show "movedRows (snd (postLocations st now moverId body w)) =
              movedRows w @
              map (movedNotification (userNameOrDefault uo) loc moverId)
                (filter (\<lambda>m. \<not> createNotificationFails st
                                 (movedNotification (userNameOrDefault uo) loc moverId m)) fs)"
      by (simp only: post(2) movedRows_step_pass [OF y ne] rows1)
    show "lastLocationNotification (snd (postLocations st now moverId body w)) =
                Some ((case lastLocationNotification w of None \<Rightarrow> Map.empty | Some m \<Rightarrow> m)
                        (moverId \<mapsto> now))"
      by (simp only: post(3) movedNotificationStep_pass(2) [OF y ne] post(5))
  }
  {
    assume "\<not> (now - lastNotificationTime w moverId > 5 * 60 * 1000 \<and> fs \<noteq> [])"
    then have "\<not> shouldCreateNotification w now moverId \<or> fs = []"
      by (simp add: shouldCreateNotification_def)
    then have "\<not> shouldCreateNotification saved now moverId \<or> fs = []"
      by (simp only: sc)
    then have skip: "movedNotificationStep st now (userNameOrDefault uo) loc moverId fs saved = saved"
      by (rule movedNotificationStep_skip)
    show "movedRows (snd (postLocations st now moverId body w)) = movedRows w"
      by (simp only: post(2) skip rows1)
    show "lastLocationNotification (snd (postLocations st now moverId body w)) =
                lastLocationNotification w"
      by (simp only: post(3) skip post(5))
  }
next
  assume e: "fst (postLocations st now moverId body w) = Status500 msg"
  show "movedRows (snd (postLocations st now moverId body w)) = movedRows w"
    by (simp add: movedRows_def postLocations_failure(1) [OF e])
  show "lastLocationNotification (snd (postLocations st now moverId body w)) =
            lastLocationNotification w"
    by (rule postLocations_failure(2) [OF e])
next
  assume "lastLocationNotification w = None
        \<or> (\<exists>m. lastLocationNotification w = Some m \<and> m moverId = None)"
  then show "lastNotificationTime w moverId = 0"
    by (auto simp: lastNotificationTime_def)
next
  assume a: "\<forall>t \<in> set (pingTimes pings). \<forall>t' \<in> set (pingTimes pings). t' - t \<le> 5 * 60 * 1000"
  show "countMoved r (runPings moverId pings w) \<le> countMoved r w + maxListed moverId r pings"
    by (rule runPings_at_most_one [OF a])
next
  assume "list_all (familyIdsDistinct moverId) pings"
  then show "maxListed moverId r pings \<le> 1" by (rule maxListed_distinct)
qed

text \<open>
  One millisecond after the 5 minutes Bob gets his row through the handler and the
  record is set; at exactly 5 minutes nothing is created; a body with \<open>type: null\<close>
  ends with status 500 and creates nothing; a fresh process has no record; the three
  pings of the burst create at most one row for Bob.
\<close>

theorem moved_notification_throttle_witness:
  "parseInsertLocation 4 homeBody =
     Inr \<lparr>il_userId = 4, il_latitude = 0, il_longitude = 0, il_accuracy = None,
          il_address = None, il_type = None\<rparr>
   \<and> getUser healthyStorage 4 = Inr (Some alice)
   \<and> getFamilyMembers healthyStorage 4 = Inr [bob]
   \<and> 1300001 - lastNotificationTime throttledWorld 4 > 5 * 60 * 1000
   \<and> map (\<lambda>n. (n_userId n, n_type n, n_message n))
        (movedRows (snd (postLocations healthyStorage 1300001 4 homeBody throttledWorld)))
       = [(5, ''location'', ''Alice updated their location'')]
   \<and> lastLocationNotification (snd (postLocations healthyStorage 1300001 4 homeBody throttledWorld))
       = Some [4 \<mapsto> 1300001]
   \<and> 1300000 - lastNotificationTime throttledWorld 4 = 5 * 60 * 1000
   \<and> movedRows (snd (postLocations healthyStorage 1300000 4 homeBody throttledWorld)) = []
   \<and> lastLocationNotification (snd (postLocations healthyStorage 1300000 4 homeBody throttledWorld))
       = Some [4 \<mapsto> 1000000]
   \<and> fst (postLocations healthyStorage 1300001 4 nullTypeBody throttledWorld)
       = Status500 ''Failed to save location''
   \<and> movedRows (snd (postLocations healthyStorage 1300001 4 nullTypeBody throttledWorld)) = []
   \<and> lastLocationNotification emptyWorld = None
   \<and> lastNotificationTime emptyWorld 4 = 0
   \<and> pingTimes burst = [1300001, 1400000, 1600001]
   \<and> list_all (familyIdsDistinct 4) burst
   \<and> countMoved 5 (runPings 4 burst throttledWorld) \<le> 1"
proof -
  let ?d = "\<lparr>il_userId = 4, il_latitude = 0, il_longitude = 0, il_accuracy = None,
          il_address = None, il_type = None\<rparr>"
  let ?loc = "\<lambda>now. \<lparr>l_id = Suc 0, l_userId = 4, l_latitude = 0, l_longitude = 0, l_accuracy = None,
            l_address = None, l_type = ''manual'', l_timestamp = Some now\<rparr>"
  have t: "lastNotificationTime throttledWorld 4 = 1000000"
    by (rule lastNotificationTime_throttledWorld)
  have l: "locations throttledWorld = []" "movedRows throttledWorld = []"
    "countMoved 5 throttledWorld = 0" "lastLocationNotification throttledWorld = Some [4 \<mapsto> 1000000]"
    by (simp_all add: throttledWorld_def emptyWorld_def movedRows_def countMoved_def)
  have sf: "\<not> saveLocationFails healthyStorage ?d" by (simp add: healthyStorage_def)
  have u: "getUser healthyStorage 4 = Inr (Some alice)" by (simp add: healthyStorage_def)
  have f: "getFamilyMembers healthyStorage 4 = Inr [bob]" by (simp add: healthyStorage_def)
  have c: "\<not> createNotificationFails healthyStorage x" for x by (simp add: healthyStorage_def)
  have un: "userNameOrDefault (Some alice) = ''Alice''"
    by (simp add: userNameOrDefault_def firstNameOrEmail_def alice_def)
  have e: "lastLocationNotification emptyWorld = None" by (simp add: emptyWorld_def)
  have ts: "pingTimes burst = [1300001, 1400000, 1600001]"
    by (simp add: burst_def pingTimes_def)
  have win: "\<forall>t \<in> set (pingTimes burst). \<forall>t' \<in> set (pingTimes burst). t' - t \<le> 5 * 60 * 1000"
    by (simp add: ts)
  have dist: "list_all (familyIdsDistinct 4) burst"
    by (simp add: burst_def familyIdsDistinct_def healthyStorage_def)
  have bad: "fst (postLocations healthyStorage 1300001 4 nullTypeBody throttledWorld)
       = Status500 ''Failed to save location''"
    by (simp add: postLocations_def parseInsertLocation_def nullTypeBody_def homeBody_def
        requiredNumber_def nullableNumber_def nullableString_def defaultedString_def)
  note pass = moved_notification_throttle
    [where moverId = 4 and body = homeBody and d = ?d and st = healthyStorage and now = 1300001
       and w = throttledWorld and loc = "?loc 1300001" and uo = "Some alice" and fs = "[bob]"
       and saved = "throttledWorld\<lparr>locations := [?loc 1300001]\<rparr>" and pings = burst and r = 5]
  note exact = moved_notification_throttle
    [where moverId = 4 and body = homeBody and d = ?d and st = healthyStorage and now = 1300000
       and w = throttledWorld and loc = "?loc 1300000" and uo = "Some alice" and fs = "[bob]"
       and saved = "throttledWorld\<lparr>locations := [?loc 1300000]\<rparr>"]
  note refused = moved_notification_throttle
    [where moverId = 4 and body = nullTypeBody and st = healthyStorage and now = 1300001
       and w = throttledWorld and msg = "''Failed to save location''"]
  note fresh = moved_notification_throttle [where moverId = 4 and w = emptyWorld]
  have h1: "parseInsertLocation 4 homeBody = Inr ?d
      \<and> saveLocation healthyStorage 1300001 ?d throttledWorld
          = (Inr (?loc 1300001), throttledWorld\<lparr>locations := [?loc 1300001]\<rparr>)
      \<and> getUser healthyStorage 4 = Inr (Some alice) \<and> getFamilyMembers healthyStorage 4 = Inr [bob]"
    using parse_homeBody save_homeBody [OF sf l(1), of 1300001] u f by simp
  have h2: "parseInsertLocation 4 homeBody = Inr ?d
      \<and> saveLocation healthyStorage 1300000 ?d throttledWorld
          = (Inr (?loc 1300000), throttledWorld\<lparr>locations := [?loc 1300000]\<rparr>)
      \<and> getUser healthyStorage 4 = Inr (Some alice) \<and> getFamilyMembers healthyStorage 4 = Inr [bob]"
    using parse_homeBody save_homeBody [OF sf l(1), of 1300000] u f by simp
  from pass h1 have p: "movedRows (snd (postLocations healthyStorage 1300001 4 homeBody throttledWorld)) =
              movedRows throttledWorld @
              map (movedNotification (userNameOrDefault (Some alice)) (?loc 1300001) 4)
                (filter (\<lambda>m. \<not> createNotificationFails healthyStorage
                                 (movedNotification (userNameOrDefault (Some alice)) (?loc 1300001) 4 m)) [bob])"
    "lastLocationNotification (snd (postLocations healthyStorage 1300001 4 homeBody throttledWorld)) =
                Some ((case lastLocationNotification throttledWorld of None \<Rightarrow> Map.empty | Some m \<Rightarrow> m)
                        (4 \<mapsto> 1300001))"
    by (simp_all add: t)
  from pass win have q: "countMoved 5 (runPings 4 burst throttledWorld)
      \<le> countMoved 5 throttledWorld + maxListed 4 5 burst"
    by blast
  from pass dist have q': "maxListed 4 5 burst \<le> 1" by blast
  from exact h2 have x: "movedRows (snd (postLocations healthyStorage 1300000 4 homeBody throttledWorld))
      = movedRows throttledWorld"
    "lastLocationNotification (snd (postLocations healthyStorage 1300000 4 homeBody throttledWorld))
      = lastLocationNotification throttledWorld"
    by (simp_all add: t)
  from refused bad have b: "movedRows (snd (postLocations healthyStorage 1300001 4 nullTypeBody throttledWorld))
      = movedRows throttledWorld"
    by blast
  from fresh e have z: "lastNotificationTime emptyWorld 4 = 0" by blast
  have p1: "map (\<lambda>n. (n_userId n, n_type n, n_message n))
        (movedRows (snd (postLocations healthyStorage 1300001 4 homeBody throttledWorld)))
       = [(5, ''location'', ''Alice updated their location'')]"
    unfolding p(1) by (simp add: l c un movedNotification_def bob_def)
  have p2: "lastLocationNotification (snd (postLocations healthyStorage 1300001 4 homeBody throttledWorld))
       = Some [4 \<mapsto> 1300001]"
    unfolding p(2) by (simp add: l)
  from q q' have q2: "countMoved 5 (runPings 4 burst throttledWorld) \<le> 1" by (simp add: l)
  show ?thesis
    using parse_homeBody u f p1 p2 x b bad e z ts dist q2 by (simp add: t l)
qed

section \<open>History compaction\<close>

lemma threshold_int: "(real_of_int d \<ge> real_of_int (60 * 60 * 1000) * 0.75) = (d \<ge> 45 * 60 * 1000)"
proof -
  have "real_of_int (60 * 60 * 1000) * 0.75 = real_of_int 2700000" by simp
  then show ?thesis by (simp only: of_int_le_iff) simp
qed

lemma filterLocations_step:
  "filterLocations now l (loc # rest) =
     (if l = 0 \<or> \<bar>locationTime now loc - l\<bar> \<ge> 45 * 60 * 1000
      then loc # filterLocations now (locationTime now loc) rest
      else filterLocations now l rest)"
  using threshold_int [of "\<bar>locationTime now loc - l\<bar>"]
  by (simp add: Let_def)

lemma filterLocations_compactRest:
  assumes "l \<noteq> 0" and "0 \<notin> set (map (locationTime now) (butlast locs))"
  shows "filterLocations now l locs = compactRest now l locs"
  using assms
proof (induction locs arbitrary: l)
  case Nil
  show ?case by simp
next
  case (Cons loc rest)
  show ?case
  proof (cases "rest = []")
    case True
    with Cons.prems(1) show ?thesis
      by (simp only: filterLocations_step) simp
  next
    case False
    with Cons.prems(2) have nz: "locationTime now loc \<noteq> 0"
      and r: "0 \<notin> set (map (locationTime now) (butlast rest))" by auto
    from Cons.IH [OF nz r] Cons.IH [OF Cons.prems(1) r] Cons.prems(1) show ?thesis
      by (simp only: filterLocations_step) simp
  qed
qed

lemma filterLocations_compactHistory:
  assumes "0 \<notin> set (map (locationTime now) (butlast locs))"
  shows "filterLocations now 0 locs = compactHistory now locs"
proof (cases locs)
  case Nil
  then show ?thesis by simp
next
  case (Cons loc rest)
  show ?thesis
  proof (cases "rest = []")
    case True
    with Cons show ?thesis by (simp only: filterLocations_step) simp
  next
    case False
    with assms Cons have nz: "locationTime now loc \<noteq> 0"
      and r: "0 \<notin> set (map (locationTime now) (butlast rest))" by auto
    from filterLocations_compactRest [OF nz r] Cons show ?thesis
      by (simp only: filterLocations_step) simp
  qed
qed

lemma filterLocations_subseq: "subseq (filterLocations now l locs) locs"
proof (induction locs arbitrary: l)
  case Nil
  show ?case by simp
next
  case (Cons loc rest)
  show ?case
    by (simp only: filterLocations_step) (auto simp: Cons.IH intro: list_emb_Cons)
qed

lemma historyQuery_nonzero:
  assumes "24 * 60 * 60 * 1000 < now"
  shows "0 \<notin> set (map (locationTime now) (historyQuery now rows))"
  using assms
  by (auto simp: historyQuery_def locationTime_def Let_def split: option.splits)

lemma member_history_nonzero:
  assumes "24 * 60 * 60 * 1000 < now"
  shows "0 \<notin> set (map (locationTime now)
           (butlast (filter (\<lambda>item. l_userId item = uid) (historyQuery now rows))))"
proof
  assume "0 \<in> set (map (locationTime now)
           (butlast (filter (\<lambda>item. l_userId item = uid) (historyQuery now rows))))"
  then obtain x where x: "x \<in> set (butlast (filter (\<lambda>item. l_userId item = uid) (historyQuery now rows)))"
    and z: "locationTime now x = 0" by auto
  from x have "x \<in> set (filter (\<lambda>item. l_userId item = uid) (historyQuery now rows))"
    by (rule in_set_butlastD)
  then have "x \<in> set (historyQuery now rows)" by simp
  with z have "0 \<in> set (map (locationTime now) (historyQuery now rows))" by force
  with historyQuery_nonzero [OF assms] show False by blast
qed

text \<open>
  Claim C6: for a member's newest-first list, the compaction keeps the first entry and
  then each entry whose timestamp is at least 45 minutes away from the last kept one,
  in the original order; the timestamps 100, 50, 40, 10, 0 (minutes) give 100, 50, 0.
  The code marks "nothing kept yet" by \<open>lastIncludedTime = 0\<close>, so the statement is for
  lists whose entries before the last are not at the epoch itself; every list that the
  query returns is such a list once the clock is past the first day of 1970.
\<close>

theorem history_compaction_keeps_45_minute_spacing:
  "(0 \<notin> set (map (locationTime now) (butlast locs)) \<longrightarrow>
      filterLocations now 0 locs = compactHistory now locs)
   \<and> (24 * 60 * 60 * 1000 < now \<longrightarrow>
        getFamilyLocationHistory now rows uid =
          (if uid \<in> l_userId ` set (historyQuery now rows)
           then Some (compactHistory now (filter (\<lambda>item. l_userId item = uid) (historyQuery now rows)))
           else None))
   \<and> subseq (filterLocations now 0 locs) locs
   \<and> map l_timestamp (filterLocations now 0 (map pingAtMinute [100, 50, 40, 10, 0]))
       = map l_timestamp (map pingAtMinute [100, 50, 0])"
proof (intro conjI impI)
  assume "0 \<notin> set (map (locationTime now) (butlast locs))"
  then show "filterLocations now 0 locs = compactHistory now locs"
    by (rule filterLocations_compactHistory)
next
  assume a: "24 * 60 * 60 * 1000 < now"
  show "getFamilyLocationHistory now rows uid =
          (if uid \<in> l_userId ` set (historyQuery now rows)
           then Some (compactHistory now (filter (\<lambda>item. l_userId item = uid) (historyQuery now rows)))
           else None)"
    by (simp add: getFamilyLocationHistory_def Let_def
        filterLocations_compactHistory [OF member_history_nonzero [OF a]])
next
  show "subseq (filterLocations now 0 locs) locs" by (rule filterLocations_subseq)
next
  show "map l_timestamp (filterLocations now 0 (map pingAtMinute [100, 50, 40, 10, 0]))
       = map l_timestamp (map pingAtMinute [100, 50, 0])"
    by (simp add: filterLocations_step locationTime_def pingAtMinute_def del: filterLocations.simps(2))
qed

text \<open>
  The list of the specification, and a day of Bob's pings read 25 hours after the
  epoch: the ping of minute 10 is older than 24 hours and not part of the query.
\<close>

theorem history_compaction_keeps_45_minute_spacing_witness:
  "0 \<notin> set (map (locationTime 6000000) (butlast (map pingAtMinute [100, 50, 40, 10, 0])))
   \<and> filterLocations 6000000 0 (map pingAtMinute [100, 50, 40, 10, 0]) = map pingAtMinute [100, 50, 0]
   \<and> 24 * 60 * 60 * 1000 < (90000000 :: int)
   \<and> getFamilyLocationHistory 90000000 (map pingAtMinute [1490, 1440, 1430, 1400, 1390, 10]) 5
       = Some (map pingAtMinute [1490, 1440, 1390])"
proof -
  have h: "0 \<notin> set (map (locationTime 6000000) (butlast (map pingAtMinute [100, 50, 40, 10, 0])))"
    by (simp add: locationTime_def pingAtMinute_def)
  have c: "compactHistory 6000000 (map pingAtMinute [100, 50, 40, 10, 0]) = map pingAtMinute [100, 50, 0]"
    by (simp add: locationTime_def pingAtMinute_def)
  have d: "24 * 60 * 60 * 1000 < (90000000 :: int)" by simp
  have q: "historyQuery 90000000 (map pingAtMinute [1490, 1440, 1430, 1400, 1390, 10])
           = map pingAtMinute [1490, 1440, 1430, 1400, 1390]"
    by (simp add: historyQuery_def pingAtMinute_def)
  have f: "filter (\<lambda>item. l_userId item = 5) (map pingAtMinute [1490, 1440, 1430, 1400, 1390])
           = map pingAtMinute [1490, 1440, 1430, 1400, 1390]"
    by (simp add: pingAtMinute_def)
  have m: "5 \<in> l_userId ` set (map pingAtMinute [1490, 1440, 1430, 1400, 1390])"
    by (simp add: pingAtMinute_def)
  have c2: "compactHistory 90000000 (map pingAtMinute [1490, 1440, 1430, 1400, 1390])
            = map pingAtMinute [1490, 1440, 1390]"
    by (simp add: locationTime_def pingAtMinute_def)
  note t1 = history_compaction_keeps_45_minute_spacing
         [of 6000000 "map pingAtMinute [100, 50, 40, 10, 0]" rows uid for rows uid]
  note t2 = history_compaction_keeps_45_minute_spacing
         [of 90000000 locs "map pingAtMinute [1490, 1440, 1430, 1400, 1390, 10]" 5 for locs]
  from t1 h have e1: "filterLocations 6000000 0 (map pingAtMinute [100, 50, 40, 10, 0])
      = compactHistory 6000000 (map pingAtMinute [100, 50, 40, 10, 0])"
    by blast
  from t2 d have e2: "getFamilyLocationHistory 90000000 (map pingAtMinute [1490, 1440, 1430, 1400, 1390, 10]) 5
      = (if 5 \<in> l_userId ` set (historyQuery 90000000 (map pingAtMinute [1490, 1440, 1430, 1400, 1390, 10]))
         then Some (compactHistory 90000000 (filter (\<lambda>item. l_userId item = 5)
                (historyQuery 90000000 (map pingAtMinute [1490, 1440, 1430, 1400, 1390, 10]))))
         else None)"
    by blast
  from e2 m have e3: "getFamilyLocationHistory 90000000 (map pingAtMinute [1490, 1440, 1430, 1400, 1390, 10]) 5
      = Some (map pingAtMinute [1490, 1440, 1390])"
    unfolding q f c2 by (simp only: if_True)
  show ?thesis
    using h d e1 e3 unfolding c by blast
qed


section \<open>Failure containment\<close>

lemma sendGeofenceNotification_all_fail:
  assumes "\<forall>n. createNotificationFails st n"
  shows "sendGeofenceNotification st now u p a w = w"
proof (cases "getUser st u")
  case (Inl e)
  then show ?thesis
    by (simp add: sendGeofenceNotification_def sendGeofenceNotificationBody_def)
next
  case (Inr uo)
  show ?thesis
  proof (cases uo)
    case None
    with Inr show ?thesis
      by (simp add: sendGeofenceNotification_def sendGeofenceNotificationBody_def)
  next
    case (Some user)
    show ?thesis
    proof (cases "getFamilyMembers st u")
      case (Inl e)
      with Inr Some show ?thesis
        by (simp add: sendGeofenceNotification_def sendGeofenceNotificationBody_def)
    next
      case fam: (Inr fs)
      show ?thesis
      proof (cases fs)
        case Nil
        with Inr Some fam assms show ?thesis
          by (simp add: sendGeofenceNotification_def sendGeofenceNotificationBody_def
              createNotification_def Let_def)
      next
        case (Cons f rest)
        with Inr Some fam assms show ?thesis
          by (simp add: sendGeofenceNotification_def sendGeofenceNotificationBody_def
              createNotification_def Let_def)
      qed
    qed
  qed
qed

lemma geofenceLoop_all_fail:
  assumes "\<forall>n. createNotificationFails st n"
  shows "snd (snd (geofenceLoop st now u lat lon cur ps (ng, sent, w))) = w"
proof (induction ps arbitrary: ng sent)
  case Nil
  show ?case by simp
next
  case (Cons p ps)
  show ?case
    by (simp add: Let_def Cons.IH sendGeofenceNotification_all_fail [OF assms])
qed

lemma check_all_fail:
  assumes "\<forall>n. createNotificationFails st n" and "getFamilyPlaces st u = Inr ps" and "ps \<noteq> []"
  shows "snd (checkGeofenceTransitions st now u lat lon w) =
           w\<lparr>userGeofenceStates := (userGeofenceStates w)(toString u \<mapsto> currentInside lat lon ps)\<rparr>"
proof -
  from geofenceLoop_result [of st now u lat lon "previousInside w u" ps "{}" "[]" w]
  obtain w' where
    r: "geofenceLoop st now u lat lon (previousInside w u) ps ({}, [], w) =
          (currentInside lat lon ps, concat (map (transitionOf lat lon (previousInside w u)) ps), w')"
    by auto
  from geofenceLoop_all_fail [OF assms(1), of now u lat lon "previousInside w u" ps "{}" "[]" w] r
  have "w' = w" by simp
  with assms(2,3) r show ?thesis
    by (simp add: checkGeofenceTransitions_def previousInside_def Let_def)
qed

lemma check_state:
  assumes "getFamilyPlaces st u = Inr ps" and "ps \<noteq> []"
  shows "userGeofenceStates (snd (checkGeofenceTransitions st now u lat lon w)) =
           (userGeofenceStates w)(toString u \<mapsto> currentInside lat lon ps)"
proof -
  from checkGeofenceTransitions_result [OF assms, of now lat lon w] obtain w' where
    "checkGeofenceTransitions st now u lat lon w =
       (concat (map (transitionOf lat lon (previousInside w u)) ps),
        w'\<lparr>userGeofenceStates := (userGeofenceStates w)(toString u \<mapsto> currentInside lat lon ps)\<rparr>)"
    by blast
  then show ?thesis by simp
qed

lemma postLocations_geofence_state:
  assumes "getFamilyPlaces st u = Inl e"
  shows "userGeofenceStates (snd (postLocations st now u body w)) = userGeofenceStates w"
proof (cases "parseInsertLocation u body")
  case (Inl e')
  then show ?thesis by (simp add: postLocations_def)
next
  case d: (Inr d)
  obtain res w1 where s: "saveLocation st now d w = (res, w1)" by (cases "saveLocation st now d w")
  have g1: "userGeofenceStates w1 = userGeofenceStates w"
    using saveLocation_throttle_view [of st now d w 0] s by simp
  show ?thesis
  proof (cases res)
    case (Inl e')
    with d s g1 show ?thesis by (simp add: postLocations_def)
  next
    case loc: (Inr loc)
    show ?thesis
    proof (cases "getUser st u")
      case (Inl e')
      with d s loc g1 show ?thesis by (simp add: postLocations_def)
    next
      case uo: (Inr uo)
      show ?thesis
      proof (cases "getFamilyMembers st u")
        case (Inl e')
        with d s loc uo g1 show ?thesis by (simp add: postLocations_def)
      next
        case fs: (Inr fs)
        let ?w2 = "movedNotificationStep st now (userNameOrDefault uo) loc u fs w1"
        let ?w4 = "broadcastLocationUpdate st u loc ?w2"
        have skip: "checkGeofenceTransitions st now u (l_latitude loc) (l_longitude loc) ?w2 = ([], ?w2)"
          using assms by (simp add: checkGeofenceTransitions_skip)
        have post: "postLocations st now u body w = (Json loc, ?w4)"
          using d s loc uo fs by (simp add: postLocations_def Let_def skip)
        have g4: "userGeofenceStates ?w4 = userGeofenceStates ?w2"
          by (rule appended_fields(1) [OF broadcastLocationUpdate_appended [where P = "\<lambda>n. True"]])
        show ?thesis
          by (simp add: post g4 g1 userGeofenceStates_movedNotificationStep)
      qed
    qed
  qed
qed

lemma previousInside_emptyWorld: "previousInside emptyWorld u = {}"
  by (simp add: previousInside_def emptyWorld_def)

text \<open>
  Claim C7 as stated gives a throw in a later step of the check the same outcome as a
  throwing place query: no transition detection and an unchanged state. The later
  steps that can throw are the storage calls of the notification dispatcher, which
  catches them itself. Here every insert throws: the check still detects that Alice
  entered Home and stores the new set, no row is created, and the next check, with a
  healthy storage, sends nothing.
\<close>

theorem later_failure_still_replaces_state_counterexample:
  "getFamilyPlaces failingInserts 4 = Inr [home, cabin]
   \<and> createNotificationFails failingInserts
        (familyNotification 4 home Entered ''Alice has entered Home'' bob)
   \<and> userGeofenceStates emptyWorld (toString 4) = None
   \<and> fst (checkGeofenceTransitions failingInserts 1000 4 0 0 emptyWorld) = [(home, Entered)]
   \<and> userGeofenceStates (snd (checkGeofenceTransitions failingInserts 1000 4 0 0 emptyWorld)) (toString 4)
       = Some {7}
   \<and> notifications (snd (checkGeofenceTransitions failingInserts 1000 4 0 0 emptyWorld)) = []
   \<and> fst (checkGeofenceTransitions healthyStorage 2000 4 0 0
            (snd (checkGeofenceTransitions failingInserts 1000 4 0 0 emptyWorld))) = []"
proof -
  have p: "getFamilyPlaces failingInserts 4 = Inr [home, cabin]"
    by (simp add: failingInserts_def healthyStorage_def)
  have ne: "[home, cabin] \<noteq> []" by simp
  have f: "\<forall>n. createNotificationFails failingInserts n" by (simp add: failingInserts_def)
  have s: "fst (checkGeofenceTransitions failingInserts 1000 4 0 0 emptyWorld) = [(home, Entered)]"
    by (simp add: sent_of_check [OF p ne] previousInside_emptyWorld
        transition_home_at_home transition_cabin_at_home)
  have w: "snd (checkGeofenceTransitions failingInserts 1000 4 0 0 emptyWorld) =
        emptyWorld\<lparr>userGeofenceStates := (userGeofenceStates emptyWorld)(toString 4 \<mapsto> {7})\<rparr>"
    by (simp add: check_all_fail [OF f p ne] currentInside_at_home)
  have prev: "previousInside
        (emptyWorld\<lparr>userGeofenceStates := (userGeofenceStates emptyWorld)(toString 4 \<mapsto> {7})\<rparr>) 4 = {7}"
    by (simp add: previousInside_def)
  have n: "fst (checkGeofenceTransitions healthyStorage 2000 4 0 0
        (emptyWorld\<lparr>userGeofenceStates := (userGeofenceStates emptyWorld)(toString 4 \<mapsto> {7})\<rparr>)) = []"
    by (simp add: sent_of_check [of healthyStorage 4 "[home, cabin]"] prev
        transition_home_at_home transition_cabin_at_home)
  show ?thesis
    using p f s n unfolding w by (simp add: emptyWorld_def)
qed

text \<open>
  Claim C7, amended: a storage failure during a geofence check is caught and never
  propagates out of ping ingestion. When fetching the candidate places throws, the
  check detects no transition for that ping, leaves the stored geofence state as it was
  and returns, so that later pings behave as if the failed check had not happened.
  When a later step throws (a storage call of the notification dispatcher), the
  dispatcher catches it: the check still detects the transitions of that ping,
  replaces the stored set and returns; when every insert throws, this replacement is
  the only effect of the check. In both cases the handler answers with the saved
  location.
\<close>

theorem geofence_storage_failure_is_contained:
  "(getFamilyPlaces st userId = Inl e \<longrightarrow>
      checkGeofenceTransitions st now userId lat lon w = ([], w)
      \<and> checkGeofenceTransitions st' now' userId lat' lon'
            (snd (checkGeofenceTransitions st now userId lat lon w))
          = checkGeofenceTransitions st' now' userId lat' lon' w
      \<and> userGeofenceStates (snd (postLocations st now userId body w)) = userGeofenceStates w)
   \<and> (getFamilyPlaces st userId = Inr ps \<and> ps \<noteq> [] \<longrightarrow>
        fst (checkGeofenceTransitions st now userId lat lon w)
          = concat (map (transitionOf lat lon (previousInside w userId)) ps)
        \<and> userGeofenceStates (snd (checkGeofenceTransitions st now userId lat lon w))
            = (userGeofenceStates w)(toString userId \<mapsto> currentInside lat lon ps)
        \<and> ((\<forall>n. createNotificationFails st n) \<longrightarrow>
              snd (checkGeofenceTransitions st now userId lat lon w)
                = w\<lparr>userGeofenceStates :=
                       (userGeofenceStates w)(toString userId \<mapsto> currentInside lat lon ps)\<rparr>))
   \<and> (parseInsertLocation userId body = Inr d \<and> \<not> saveLocationFails st d
        \<and> getUser st userId = Inr uo \<and> getFamilyMembers st userId = Inr fs \<longrightarrow>
        (\<exists>loc. fst (postLocations st now userId body w) = Json loc))"
proof (intro conjI impI)
  assume a: "getFamilyPlaces st userId = Inl e"
  show skip: "checkGeofenceTransitions st now userId lat lon w = ([], w)"
    using a by (simp add: checkGeofenceTransitions_skip)
  show "checkGeofenceTransitions st' now' userId lat' lon'
            (snd (checkGeofenceTransitions st now userId lat lon w))
          = checkGeofenceTransitions st' now' userId lat' lon' w"
    by (simp add: skip)
  show "userGeofenceStates (snd (postLocations st now userId body w)) = userGeofenceStates w"
    by (rule postLocations_geofence_state [OF a])
next
  assume a: "getFamilyPlaces st userId = Inr ps \<and> ps \<noteq> []"
  then have p: "getFamilyPlaces st userId = Inr ps" and ne: "ps \<noteq> []" by simp_all
  show "fst (checkGeofenceTransitions st now userId lat lon w)
          = concat (map (transitionOf lat lon (previousInside w userId)) ps)"
    by (rule sent_of_check [OF p ne])
  show "userGeofenceStates (snd (checkGeofenceTransitions st now userId lat lon w))
            = (userGeofenceStates w)(toString userId \<mapsto> currentInside lat lon ps)"
    by (rule check_state [OF p ne])
  {
    assume f: "\<forall>n. createNotificationFails st n"
    show "snd (checkGeofenceTransitions st now userId lat lon w)
                = w\<lparr>userGeofenceStates :=
                       (userGeofenceStates w)(toString userId \<mapsto> currentInside lat lon ps)\<rparr>"
      by (rule check_all_fail [OF f p ne])
  }
next
  assume a: "parseInsertLocation userId body = Inr d \<and> \<not> saveLocationFails st d
        \<and> getUser st userId = Inr uo \<and> getFamilyMembers st userId = Inr fs"
  then obtain loc w1 where s: "saveLocation st now d w = (Inr loc, w1)"
    by (simp add: saveLocation_def Let_def)
  from a have "fst (postLocations st now userId body w) = Json loc"
    by (intro postLocations_success(1) [OF _ s]) simp_all
  then show "\<exists>loc. fst (postLocations st now userId body w) = Json loc" by blast
qed

text \<open>
  The place query throws for Alice's first ping and her next ping enters Home; with
  every insert throwing, her ping is still answered and the stored set is replaced.
\<close>

theorem geofence_storage_failure_is_contained_witness:
  "getFamilyPlaces brokenPlacesStorage 4 = Inl StorageError
   \<and> checkGeofenceTransitions brokenPlacesStorage 1000 4 0 0 emptyWorld = ([], emptyWorld)
   \<and> userGeofenceStates (snd (postLocations brokenPlacesStorage 1000 4 homeBody emptyWorld)) = Map.empty
   \<and> fst (checkGeofenceTransitions healthyStorage 2000 4 0 0
            (snd (checkGeofenceTransitions brokenPlacesStorage 1000 4 0 0 emptyWorld)))
       = [(home, Entered)]
   \<and> (\<exists>loc. fst (postLocations brokenPlacesStorage 1000 4 homeBody emptyWorld) = Json loc)
   \<and> getFamilyPlaces failingInserts 4 = Inr [home, cabin]
   \<and> (\<forall>n. createNotificationFails failingInserts n)
   \<and> fst (checkGeofenceTransitions failingInserts 1000 4 0 0 emptyWorld) = [(home, Entered)]
   \<and> snd (checkGeofenceTransitions failingInserts 1000 4 0 0 emptyWorld)
       = emptyWorld\<lparr>userGeofenceStates := [toString 4 \<mapsto> {7}]\<rparr>
   \<and> (\<exists>loc. fst (postLocations failingInserts 1000 4 homeBody emptyWorld) = Json loc)"
proof -
  let ?d = "\<lparr>il_userId = 4, il_latitude = 0, il_longitude = 0, il_accuracy = None,
          il_address = None, il_type = None\<rparr>"
  have h: "getFamilyPlaces brokenPlacesStorage 4 = Inl StorageError"
    by (simp add: brokenPlacesStorage_def)
  have p: "getFamilyPlaces failingInserts 4 = Inr [home, cabin] \<and> [home, cabin] \<noteq> []"
    by (simp add: failingInserts_def healthyStorage_def)
  have f: "\<forall>n. createNotificationFails failingInserts n" by (simp add: failingInserts_def)
  have ok1: "parseInsertLocation 4 homeBody = Inr ?d \<and> \<not> saveLocationFails brokenPlacesStorage ?d
      \<and> getUser brokenPlacesStorage 4 = Inr (Some alice)
      \<and> getFamilyMembers brokenPlacesStorage 4 = Inr [bob]"
    by (simp add: parse_homeBody brokenPlacesStorage_def healthyStorage_def)
  have ok2: "parseInsertLocation 4 homeBody = Inr ?d \<and> \<not> saveLocationFails failingInserts ?d
      \<and> getUser failingInserts 4 = Inr (Some alice)
      \<and> getFamilyMembers failingInserts 4 = Inr [bob]"
    by (simp add: parse_homeBody failingInserts_def healthyStorage_def)
  have g: "userGeofenceStates emptyWorld = Map.empty" by (simp add: emptyWorld_def)
  have n: "fst (checkGeofenceTransitions healthyStorage 2000 4 0 0 emptyWorld) = [(home, Entered)]"
    by (simp add: sent_of_check [of healthyStorage 4 "[home, cabin]"] previousInside_emptyWorld
        transition_home_at_home transition_cabin_at_home)
  have tr: "concat (map (transitionOf 0 0 (previousInside emptyWorld 4)) [home, cabin]) = [(home, Entered)]"
    by (simp add: previousInside_emptyWorld transition_home_at_home transition_cabin_at_home)
  note broken = geofence_storage_failure_is_contained
    [where st = brokenPlacesStorage and userId = 4 and e = StorageError and now = 1000 and lat = 0
       and lon = 0 and w = emptyWorld and body = homeBody and d = ?d and uo = "Some alice"
       and fs = "[bob]" and st' = healthyStorage and now' = 2000 and lat' = 0 and lon' = 0]
  note failing = geofence_storage_failure_is_contained
    [where st = failingInserts and userId = 4 and ps = "[home, cabin]" and now = 1000 and lat = 0
       and lon = 0 and w = emptyWorld and body = homeBody and d = ?d and uo = "Some alice"
       and fs = "[bob]"]
  from broken h have b1: "checkGeofenceTransitions brokenPlacesStorage 1000 4 0 0 emptyWorld = ([], emptyWorld)"
    and b2: "checkGeofenceTransitions healthyStorage 2000 4 0 0
            (snd (checkGeofenceTransitions brokenPlacesStorage 1000 4 0 0 emptyWorld))
          = checkGeofenceTransitions healthyStorage 2000 4 0 0 emptyWorld"
    and b3: "userGeofenceStates (snd (postLocations brokenPlacesStorage 1000 4 homeBody emptyWorld))
          = userGeofenceStates emptyWorld"
    by blast+
  from broken ok1 have b4: "\<exists>loc. fst (postLocations brokenPlacesStorage 1000 4 homeBody emptyWorld) = Json loc"
    by blast
  from failing p have f1: "fst (checkGeofenceTransitions failingInserts 1000 4 0 0 emptyWorld)
          = concat (map (transitionOf 0 0 (previousInside emptyWorld 4)) [home, cabin])"
    by blast
  from failing p f have f2: "snd (checkGeofenceTransitions failingInserts 1000 4 0 0 emptyWorld)
                = emptyWorld\<lparr>userGeofenceStates :=
                       (userGeofenceStates emptyWorld)(toString 4 \<mapsto> currentInside 0 0 [home, cabin])\<rparr>"
    by blast
  from failing ok2 have f3: "\<exists>loc. fst (postLocations failingInserts 1000 4 homeBody emptyWorld) = Json loc"
    by blast
  have f2': "snd (checkGeofenceTransitions failingInserts 1000 4 0 0 emptyWorld)
       = emptyWorld\<lparr>userGeofenceStates := [toString 4 \<mapsto> {7}]\<rparr>"
    unfolding f2 by (simp add: currentInside_at_home g)
  have f1': "fst (checkGeofenceTransitions failingInserts 1000 4 0 0 emptyWorld) = [(home, Entered)]"
    unfolding f1 by (rule tr)
  show ?thesis
    using h b1 b3 b4 p f f3 f2' f1' by (simp add: b2 n g)
qed

section \<open>Periodic re-logging\<close>

text \<open>
  Claim C10: the periodic re-logging step creates a new ping, of type
  \<open>automatic_hourly\<close> and with latitude, longitude, accuracy and address of the user's
  latest ping, if and only if the user exists with location history enabled, a latest
  ping exists and its timestamp is within the last 2 hours; otherwise it creates
  nothing. (The insert is assumed not to throw, and the clock to be past 02:00 on the
  first day of 1970, so that a null timestamp, read as 0, is too old.)
\<close>

theorem hourly_relog_condition:
  assumes "\<forall>l. \<not> saveLocationFails st l" and "2 * HOUR_IN_MS < now"
  shows "(relogDue st now userId \<longrightarrow>
            (\<exists>latest. getUserLatestLocation st userId = Inr (Some latest)
               \<and> logUserLocation st now userId w =
                   w\<lparr>locations := locations w @
                       [\<lparr>l_id = Suc (length (locations w)), l_userId = userId,
                         l_latitude = l_latitude latest, l_longitude = l_longitude latest,
                         l_accuracy = l_accuracy latest, l_address = l_address latest,
                         l_type = ''automatic_hourly'', l_timestamp = Some now\<rparr>]\<rparr>))
       \<and> (\<not> relogDue st now userId \<longrightarrow> logUserLocation st now userId w = w)"
  using assms
  by (auto simp: relogDue_def logUserLocation_def saveLocation_def HOUR_IN_MS_def Let_def
      split: sum.splits option.splits)

text \<open>
  Alice's latest ping is 30 minutes old: it is logged again. Later it is too old, and
  with no latest ping at all nothing is logged.
\<close>

theorem hourly_relog_condition_witness:
  "(\<forall>l. \<not> saveLocationFails relogStorage l) \<and> 2 * HOUR_IN_MS < 10800000
   \<and> relogDue relogStorage 10800000 4
   \<and> map (\<lambda>l. (l_userId l, l_latitude l, l_longitude l, l_accuracy l, l_address l, l_type l))
        (locations (logUserLocation relogStorage 10800000 4 emptyWorld))
       = [(4, 0, 0, Some 12, Some ''1 Main St'', ''automatic_hourly'')]
   \<and> \<not> relogDue relogStorage 20000000 4
   \<and> logUserLocation relogStorage 20000000 4 emptyWorld = emptyWorld
   \<and> \<not> relogDue healthyStorage 10800000 4
   \<and> logUserLocation healthyStorage 10800000 4 emptyWorld = emptyWorld"
proof -
  have s: "\<forall>l. \<not> saveLocationFails relogStorage l" "\<forall>l. \<not> saveLocationFails healthyStorage l"
    by (simp_all add: relogStorage_def healthyStorage_def)
  have c: "2 * HOUR_IN_MS < 10800000" "2 * HOUR_IN_MS < 20000000" by (simp_all add: HOUR_IN_MS_def)
  have l: "getUserLatestLocation relogStorage 4 = Inr (Some recentPing)"
    by (simp add: relogStorage_def)
  have d: "relogDue relogStorage 10800000 4" "\<not> relogDue relogStorage 20000000 4"
    "\<not> relogDue healthyStorage 10800000 4"
    by (simp_all add: relogDue_def relogStorage_def healthyStorage_def alice_def recentPing_def)
  have e: "locations emptyWorld = []" by (simp add: emptyWorld_def)
  from hourly_relog_condition [OF s(1) c(1), of 4 emptyWorld]
       hourly_relog_condition [OF s(1) c(2), of 4 emptyWorld]
       hourly_relog_condition [OF s(2) c(1), of 4 emptyWorld] s c d l
  show ?thesis
    by (simp add: e recentPing_def)
qed



end
